theory Spec2Isabelle
  imports Main "HOL-Library.Word" "HOL-Library.Multiset"
begin

section \<open>JavaScript strings\<close>

text \<open>
  A JavaScript string is a sequence of 16-bit code units. \<open>js\<close> turns a literal of
  the source (one code unit per character, all below 256) into such a sequence.
\<close>

type_synonym jschar = "16 word"
type_synonym jsstring = "jschar list"

definition js :: "string \<Rightarrow> jsstring" where
  "js s = map of_char s"

text \<open>
  \<open>isLineTerminator\<close>: LF, CR, U+2028, U+2029, the code units the regular-expression
  atom \<open>.\<close> refuses. \<open>isWhiteSpace\<close>: what \<open>\s\<close> matches and \<open>trim()\<close>
  strips (TAB, VT, FF, SP, NBSP, U+1680, U+2000..U+200A, U+202F, U+205F, U+3000, U+FEFF and
  the line terminators).
\<close>

definition ch :: "char \<Rightarrow> jschar" where
  "ch c = of_char c"

definition isLineTerminator :: "jschar \<Rightarrow> bool" where
  "isLineTerminator c = (c = 0x0A \<or> c = 0x0D \<or> c = 0x2028 \<or> c = 0x2029)"

definition isWhiteSpace :: "jschar \<Rightarrow> bool" where
  "isWhiteSpace c =
     (c = 0x09 \<or> c = 0x0B \<or> c = 0x0C \<or> c = 0x20 \<or> c = 0xA0 \<or> c = 0x1680
      \<or> (0x2000 \<le> c \<and> c \<le> 0x200A) \<or> c = 0x202F \<or> c = 0x205F \<or> c = 0x3000
      \<or> c = 0xFEFF \<or> isLineTerminator c)"

definition trim :: "jsstring \<Rightarrow> jsstring" where
  "trim s = rev (dropWhile isWhiteSpace (rev (dropWhile isWhiteSpace s)))"

section \<open>Regular expressions\<close>

text \<open>
  The three patterns of \<open>parseQRContent\<close> are sequences of character classes, each taken
  once or under a greedy \<open>*\<close> or \<open>+\<close>, some of them captured, optionally anchored
  at both ends. \<open>re_match\<close> is the backtracking matcher for such a sequence: a greedy
  piece first takes as many code units as its class allows and gives them back one at a
  time while the rest of the pattern fails.
\<close>

datatype quantifier = Once | Star | Plus

datatype piece = Piece "jschar \<Rightarrow> bool" quantifier bool

record regex =
  anchored_start :: bool
  pieces :: "piece list"
  anchored_end :: bool

primrec backtrack :: "(nat \<Rightarrow> 'a option) \<Rightarrow> nat \<Rightarrow> nat \<Rightarrow> 'a option" where
  "backtrack f lo 0 = (if lo = 0 then f 0 else None)"
| "backtrack f lo (Suc k) =
     (if Suc k < lo then None
      else case f (Suc k) of Some r \<Rightarrow> Some r | None \<Rightarrow> backtrack f lo k)"

primrec re_match :: "piece list \<Rightarrow> bool \<Rightarrow> jsstring \<Rightarrow> jsstring list option" where
  "re_match [] eol s = (if eol \<and> s \<noteq> [] then None else Some [])"
| "re_match (p # ps) eol s =
     (case p of Piece cls q captured \<Rightarrow>
        let n = length (takeWhile cls s);
            attempt = (\<lambda>k. map_option (\<lambda>gs. if captured then take k s # gs else gs)
                                        (re_match ps eol (drop k s)))
        in case q of
             Once \<Rightarrow> (if n = 0 then None else attempt 1)
           | Star \<Rightarrow> backtrack attempt 0 n
           | Plus \<Rightarrow> backtrack attempt 1 n)"

primrec re_search :: "piece list \<Rightarrow> bool \<Rightarrow> jsstring \<Rightarrow> jsstring list option" where
  "re_search ps eol [] = re_match ps eol []"
| "re_search ps eol (c # cs) =
     (case re_match ps eol (c # cs) of Some gs \<Rightarrow> Some gs | None \<Rightarrow> re_search ps eol cs)"

text \<open>\<open>str.match(re)\<close> for a pattern without the \<open>g\<close> flag: the captured groups of the
  leftmost match, or \<open>None\<close> for \<open>null\<close>.\<close>

definition match :: "jsstring \<Rightarrow> regex \<Rightarrow> jsstring list option" where
  "match s re =
     (if anchored_start re then re_match (pieces re) (anchored_end re) s
      else re_search (pieces re) (anchored_end re) s)"

definition lit :: "char \<Rightarrow> piece" where
  "lit c = Piece (\<lambda>x. x = ch c) Once False"

text \<open>A letter under the \<open>i\<close> flag: the pattern's letters are ASCII, and only the two
  ASCII cases of a letter canonicalise to it.\<close>

definition lit_i :: "char \<Rightarrow> char \<Rightarrow> piece" where
  "lit_i lower upper = Piece (\<lambda>x. x = ch lower \<or> x = ch upper) Once False"

definition notComma :: "jschar \<Rightarrow> bool" where
  "notComma c = (c \<noteq> ch CHR '','')"

definition dot :: "jschar \<Rightarrow> bool" where
  "dot c = (\<not> isLineTerminator c)"

text \<open>\<^verbatim>\<open>/^([^,]+),\s*([^,]+),\s*(.+)$/\<close>\<close>

definition threePartRe :: regex where
  "threePartRe = \<lparr> anchored_start = True,
     pieces = [Piece notComma Plus True, lit CHR '','', Piece isWhiteSpace Star False,
               Piece notComma Plus True, lit CHR '','', Piece isWhiteSpace Star False,
               Piece dot Plus True],
     anchored_end = True \<rparr>"

text \<open>\<^verbatim>\<open>/Name:\s*([^,]+),\s*Country:\s*(.+)/i\<close>\<close>

definition labeledRe :: regex where
  "labeledRe = \<lparr> anchored_start = False,
     pieces = [lit_i CHR ''n'' CHR ''N'', lit_i CHR ''a'' CHR ''A'', lit_i CHR ''m'' CHR ''M'',
               lit_i CHR ''e'' CHR ''E'', lit CHR '':'', Piece isWhiteSpace Star False,
               Piece notComma Plus True, lit CHR '','', Piece isWhiteSpace Star False,
               lit_i CHR ''c'' CHR ''C'', lit_i CHR ''o'' CHR ''O'', lit_i CHR ''u'' CHR ''U'',
               lit_i CHR ''n'' CHR ''N'', lit_i CHR ''t'' CHR ''T'', lit_i CHR ''r'' CHR ''R'',
               lit_i CHR ''y'' CHR ''Y'', lit CHR '':'', Piece isWhiteSpace Star False,
               Piece dot Plus True],
     anchored_end = False \<rparr>"

text \<open>\<^verbatim>\<open>/^([^,]+),\s*(.+)$/\<close>\<close>

definition simpleRe :: regex where
  "simpleRe = \<lparr> anchored_start = True,
     pieces = [Piece notComma Plus True, lit CHR '','', Piece isWhiteSpace Star False,
               Piece dot Plus True],
     anchored_end = True \<rparr>"

section \<open>JSON.parse\<close>

text \<open>
  \<open>JSON.parse\<close> is a built-in of the platform. It is modelled by the JSON grammar
  (ECMA-404) as a pushdown automaton that reads the text one code unit at a time:
  \<open>frame\<close>s are the arrays and objects still open, \<open>mode\<close> is the position in the
  grammar (\<open>Literal kw i\<close>: the first \<open>i\<close> letters of the keyword \<open>kw\<close> are read). \<open>None\<close> stands for the \<open>SyntaxError\<close> that \<open>JSON.parse\<close> throws.
  A number is kept exactly, as sign, decimal mantissa and decimal exponent.
\<close>

datatype json =
    JNull
  | JBool bool
  | JNumber bool nat int
  | JString jsstring
  | JArray "json list"
  | JObject "(jsstring \<times> json) list"

datatype frame =
    ArrayFrame "json list"
  | ObjectFrame "(jsstring \<times> json) list" "jsstring option"

datatype numphase =
  AfterMinus | AfterZero | IntDigits | AfterPoint | FracDigits | AfterE | AfterESign | ExpDigits

record number =
  negative :: bool
  mantissa :: nat
  fraction_digits :: nat
  exp_negative :: bool
  exp_digits :: nat

datatype keyword = KTrue | KFalse | KNull

datatype mode =
    Value | ArrayStart | ObjectStart | Key | Colon | After
  | InString jsstring | Escape jsstring | Unicode jsstring "nat list"
  | InNumber numphase number
  | Literal keyword nat

datatype pstate = Parsing mode "frame list" | Done json | Failed

definition isJSONWhiteSpace :: "jschar \<Rightarrow> bool" where
  "isJSONWhiteSpace c = (c = 0x20 \<or> c = 0x09 \<or> c = 0x0A \<or> c = 0x0D)"

definition isDigit :: "jschar \<Rightarrow> bool" where
  "isDigit c = (ch CHR ''0'' \<le> c \<and> c \<le> ch CHR ''9'')"

definition digitValue :: "jschar \<Rightarrow> nat" where
  "digitValue c = unat c - 48"

definition hexValue :: "jschar \<Rightarrow> nat option" where
  "hexValue c =
     (if isDigit c then Some (digitValue c)
      else if ch CHR ''a'' \<le> c \<and> c \<le> ch CHR ''f'' then Some (unat c - 87)
      else if ch CHR ''A'' \<le> c \<and> c \<le> ch CHR ''F'' then Some (unat c - 55)
      else None)"

definition unescape :: "jschar \<Rightarrow> jschar option" where
  "unescape c =
     (if c = ch CHR 0x22 \<or> c = ch CHR 0x5C \<or> c = ch CHR ''/'' then Some c
      else if c = ch CHR ''b'' then Some 0x08
      else if c = ch CHR ''f'' then Some 0x0C
      else if c = ch CHR ''n'' then Some 0x0A
      else if c = ch CHR ''r'' then Some 0x0D
      else if c = ch CHR ''t'' then Some 0x09
      else None)"

fun spelling :: "keyword \<Rightarrow> jsstring" where
  "spelling KTrue = js ''true''"
| "spelling KFalse = js ''false''"
| "spelling KNull = js ''null''"

fun keyword_value :: "keyword \<Rightarrow> json" where
  "keyword_value KTrue = JBool True"
| "keyword_value KFalse = JBool False"
| "keyword_value KNull = JNull"

definition number0 :: number where
  "number0 = \<lparr> negative = False, mantissa = 0, fraction_digits = 0,
               exp_negative = False, exp_digits = 0 \<rparr>"

definition number_value :: "number \<Rightarrow> json" where
  "number_value n =
     JNumber (negative n) (mantissa n)
       ((if exp_negative n then - int (exp_digits n) else int (exp_digits n))
        - int (fraction_digits n))"

definition can_end :: "numphase \<Rightarrow> bool" where
  "can_end ph = (ph = AfterZero \<or> ph = IntDigits \<or> ph = FracDigits \<or> ph = ExpDigits)"

definition push_digit :: "jschar \<Rightarrow> number \<Rightarrow> number" where
  "push_digit c n = n\<lparr>mantissa := mantissa n * 10 + digitValue c\<rparr>"

definition push_fraction :: "jschar \<Rightarrow> number \<Rightarrow> number" where
  "push_fraction c n =
     n\<lparr>mantissa := mantissa n * 10 + digitValue c, fraction_digits := Suc (fraction_digits n)\<rparr>"

definition push_exp :: "jschar \<Rightarrow> number \<Rightarrow> number" where
  "push_exp c n = n\<lparr>exp_digits := exp_digits n * 10 + digitValue c\<rparr>"

definition isE :: "jschar \<Rightarrow> bool" where
  "isE c = (c = ch CHR ''e'' \<or> c = ch CHR ''E'')"

text \<open>The next state of a number in progress, or \<open>None\<close> when the code unit does not
  continue it.\<close>

fun num_step :: "numphase \<Rightarrow> number \<Rightarrow> jschar \<Rightarrow> (numphase \<times> number) option" where
  "num_step AfterMinus n c =
     (if c = ch CHR ''0'' then Some (AfterZero, n)
      else if isDigit c then Some (IntDigits, push_digit c n) else None)"
| "num_step AfterZero n c =
     (if c = ch CHR ''.'' then Some (AfterPoint, n)
      else if isE c then Some (AfterE, n) else None)"
| "num_step IntDigits n c =
     (if isDigit c then Some (IntDigits, push_digit c n)
      else if c = ch CHR ''.'' then Some (AfterPoint, n)
      else if isE c then Some (AfterE, n) else None)"
| "num_step AfterPoint n c =
     (if isDigit c then Some (FracDigits, push_fraction c n) else None)"
| "num_step FracDigits n c =
     (if isDigit c then Some (FracDigits, push_fraction c n)
      else if isE c then Some (AfterE, n) else None)"
| "num_step AfterE n c =
     (if c = ch CHR ''+'' then Some (AfterESign, n)
      else if c = ch CHR ''-'' then Some (AfterESign, n\<lparr>exp_negative := True\<rparr>)
      else if isDigit c then Some (ExpDigits, push_exp c n) else None)"
| "num_step AfterESign n c =
     (if isDigit c then Some (ExpDigits, push_exp c n) else None)"
| "num_step ExpDigits n c =
     (if isDigit c then Some (ExpDigits, push_exp c n) else None)"

text \<open>A finished value goes to the innermost open container, or ends the text.\<close>

fun deliver :: "json \<Rightarrow> frame list \<Rightarrow> pstate" where
  "deliver v [] = Done v"
| "deliver v (ArrayFrame vs # fs) = Parsing After (ArrayFrame (vs @ [v]) # fs)"
| "deliver v (ObjectFrame kvs (Some k) # fs) =
     Parsing After (ObjectFrame (kvs @ [(k, v)]) None # fs)"
| "deliver v (ObjectFrame kvs None # fs) = Failed"

text \<open>A closing quote ends a member name when the innermost object waits for one, and a
  string value otherwise.\<close>

fun end_string :: "jsstring \<Rightarrow> frame list \<Rightarrow> pstate" where
  "end_string s (ObjectFrame kvs None # fs) = Parsing Colon (ObjectFrame kvs (Some s) # fs)"
| "end_string s fs = deliver (JString s) fs"

definition start_value :: "jschar \<Rightarrow> frame list \<Rightarrow> pstate" where
  "start_value c fs =
     (if c = ch CHR ''{'' then Parsing ObjectStart (ObjectFrame [] None # fs)
      else if c = ch CHR ''['' then Parsing ArrayStart (ArrayFrame [] # fs)
      else if c = ch CHR 0x22 then Parsing (InString []) fs
      else if c = ch CHR ''-'' then Parsing (InNumber AfterMinus (number0\<lparr>negative := True\<rparr>)) fs
      else if c = ch CHR ''0'' then Parsing (InNumber AfterZero number0) fs
      else if isDigit c then Parsing (InNumber IntDigits (push_digit c number0)) fs
      else if c = ch CHR ''t'' then Parsing (Literal KTrue 1) fs
      else if c = ch CHR ''f'' then Parsing (Literal KFalse 1) fs
      else if c = ch CHR ''n'' then Parsing (Literal KNull 1) fs
      else Failed)"

fun close_array :: "frame list \<Rightarrow> pstate" where
  "close_array (ArrayFrame vs # fs) = deliver (JArray vs) fs"
| "close_array fs = Failed"

fun close_object :: "frame list \<Rightarrow> pstate" where
  "close_object (ObjectFrame kvs None # fs) = deliver (JObject kvs) fs"
| "close_object fs = Failed"

fun next_member :: "frame list \<Rightarrow> pstate" where
  "next_member (ArrayFrame vs # fs) = Parsing Value (ArrayFrame vs # fs)"
| "next_member (ObjectFrame kvs None # fs) = Parsing Key (ObjectFrame kvs None # fs)"
| "next_member fs = Failed"

text \<open>A code unit after a finished value: white space, a comma or the bracket that
  closes the container; after the outermost value only white space.\<close>

fun resume :: "pstate \<Rightarrow> jschar \<Rightarrow> pstate" where
  "resume (Done v) c = (if isJSONWhiteSpace c then Done v else Failed)"
| "resume (Parsing After fs) c =
     (if isJSONWhiteSpace c then Parsing After fs
      else if c = ch CHR '','' then next_member fs
      else if c = ch CHR '']'' then close_array fs
      else if c = ch CHR ''}'' then close_object fs
      else Failed)"
| "resume st c = Failed"

fun step :: "pstate \<Rightarrow> jschar \<Rightarrow> pstate" where
  "step Failed c = Failed"
| "step (Done v) c = resume (Done v) c"
| "step (Parsing Value fs) c =
     (if isJSONWhiteSpace c then Parsing Value fs else start_value c fs)"
| "step (Parsing ArrayStart fs) c =
     (if isJSONWhiteSpace c then Parsing ArrayStart fs
      else if c = ch CHR '']'' then close_array fs
      else start_value c fs)"
| "step (Parsing ObjectStart fs) c =
     (if isJSONWhiteSpace c then Parsing ObjectStart fs
      else if c = ch CHR ''}'' then close_object fs
      else if c = ch CHR 0x22 then Parsing (InString []) fs
      else Failed)"
| "step (Parsing Key fs) c =
     (if isJSONWhiteSpace c then Parsing Key fs
      else if c = ch CHR 0x22 then Parsing (InString []) fs
      else Failed)"
| "step (Parsing Colon fs) c =
     (if isJSONWhiteSpace c then Parsing Colon fs
      else if c = ch CHR '':'' then Parsing Value fs
      else Failed)"
| "step (Parsing After fs) c = resume (Parsing After fs) c"
| "step (Parsing (InString acc) fs) c =
     (if c = ch CHR 0x22 then end_string acc fs
      else if c = ch CHR 0x5C then Parsing (Escape acc) fs
      else if c < 0x20 then Failed
      else Parsing (InString (acc @ [c])) fs)"
| "step (Parsing (Escape acc) fs) c =
     (case unescape c of
        Some x \<Rightarrow> Parsing (InString (acc @ [x])) fs
      | None \<Rightarrow> if c = ch CHR ''u'' then Parsing (Unicode acc []) fs else Failed)"
| "step (Parsing (Unicode acc ds) fs) c =
     (case hexValue c of
        None \<Rightarrow> Failed
      | Some d \<Rightarrow>
          if length ds = 3
          then Parsing (InString (acc @ [of_nat (foldl (\<lambda>a x. a * 16 + x) 0 (ds @ [d]))])) fs
          else Parsing (Unicode acc (ds @ [d])) fs)"
| "step (Parsing (InNumber ph n) fs) c =
     (case num_step ph n c of
        Some (ph', n') \<Rightarrow> Parsing (InNumber ph' n') fs
      | None \<Rightarrow> if can_end ph then resume (deliver (number_value n) fs) c else Failed)"
| "step (Parsing (Literal kw i) fs) c =
     (if i < length (spelling kw) \<and> c = spelling kw ! i then
        if Suc i = length (spelling kw) then deliver (keyword_value kw) fs
        else Parsing (Literal kw (Suc i)) fs
      else Failed)"

fun finish :: "pstate \<Rightarrow> json option" where
  "finish (Done v) = Some v"
| "finish (Parsing (InNumber ph n) []) = (if can_end ph then Some (number_value n) else None)"
| "finish st = None"

definition JSON_parse :: "jsstring \<Rightarrow> json option" where
  "JSON_parse text = finish (foldl step (Parsing Value []) text)"

text \<open>For the proofs: the states of a text whose outermost value is a number or a keyword,
  which no comma can follow.\<close>

fun topLevelScalar :: "pstate \<Rightarrow> bool" where
  "topLevelScalar Failed = True"
| "topLevelScalar (Done v) = True"
| "topLevelScalar (Parsing (InNumber ph n) []) = True"
| "topLevelScalar (Parsing (Literal kw i) []) = True"
| "topLevelScalar st = False"

text \<open>The code units that open a JSON object, array or string.\<close>

definition isOpening :: "jschar \<Rightarrow> bool" where
  "isOpening c = (c = ch CHR ''{'' \<or> c = ch CHR ''['' \<or> c = ch CHR 0x22)"

section \<open>parseQRContent\<close>

record identity =
  name :: jsstring
  country :: jsstring

datatype js_error = SyntaxError | TypeError

text \<open>
  What the source does with the parsed value. \<open>getField\<close> reads one of the properties
  \<open>name\<close>, \<open>country\<close>, \<open>lastName\<close>, \<open>firstName\<close>: reading a property of
  \<open>null\<close> throws; an object gives its own member (the last one of that name in the
  text) or \<open>undefined\<close>, here \<open>None\<close>; every other value gives \<open>undefined\<close>, since
  no prototype defines these four names. \<open>truthy\<close> is the test of \<open>if\<close> and
  \<open>&&\<close>; a number is falsy when it converts to zero, that is when its magnitude is at
  most \<open>2 ^ -1075\<close>, half the least positive double. \<open>callTrim\<close> is \<open>v.trim()\<close>,
  defined on strings only.
\<close>

fun getField :: "json \<Rightarrow> jsstring \<Rightarrow> js_error + json option" where
  "getField JNull k = Inl TypeError"
| "getField (JObject kvs) k = Inr (map_of (rev kvs) k)"
| "getField v k = Inr None"

fun truthy :: "json option \<Rightarrow> bool" where
  "truthy None = False"
| "truthy (Some JNull) = False"
| "truthy (Some (JBool b)) = b"
| "truthy (Some (JNumber neg m e)) =
     (\<not> (m = 0 \<or> (e < 0 \<and> m * 2 ^ 1075 \<le> 10 ^ nat (- e))))"
| "truthy (Some (JString s)) = (s \<noteq> [])"
| "truthy (Some (JArray vs)) = True"
| "truthy (Some (JObject kvs)) = True"

fun callTrim :: "json option \<Rightarrow> js_error + jsstring" where
  "callTrim (Some (JString s)) = Inr (trim s)"
| "callTrim v = Inl TypeError"

definition bindE :: "'e + 'a \<Rightarrow> ('a \<Rightarrow> 'e + 'b) \<Rightarrow> 'e + 'b" where
  "bindE m f = (case m of Inl e \<Rightarrow> Inl e | Inr x \<Rightarrow> f x)"

text \<open>\<open>a && b\<close>: the value of \<open>a\<close> when it is falsy, else the value of \<open>b\<close>.\<close>

definition andAlso ::
  "js_error + json option \<Rightarrow> js_error + json option \<Rightarrow> js_error + json option" where
  "andAlso a b = bindE a (\<lambda>x. if truthy x then b else Inr x)"

text \<open>
  The body of the \<open>try\<close> block of strategy 4. \<open>Inl e\<close>: the exception \<open>e\<close> was thrown;
  \<open>Inr (Some i)\<close>: the block returned \<open>i\<close>; \<open>Inr None\<close>: the block ran to its end.
\<close>

definition jsonStrategy :: "jsstring \<Rightarrow> js_error + identity option" where
  "jsonStrategy qrData =
     (case JSON_parse qrData of
        None \<Rightarrow> Inl SyntaxError
      | Some jsonData \<Rightarrow>
          bindE (andAlso (getField jsonData (js ''name'')) (getField jsonData (js ''country'')))
            (\<lambda>c1.
              if truthy c1 then
                bindE (bindE (getField jsonData (js ''name'')) callTrim) (\<lambda>n.
                bindE (bindE (getField jsonData (js ''country'')) callTrim) (\<lambda>c.
                  Inr (Some \<lparr> name = n, country = c \<rparr>)))
              else
                bindE (andAlso (andAlso (getField jsonData (js ''lastName''))
                                        (getField jsonData (js ''firstName'')))
                               (getField jsonData (js ''country'')))
                  (\<lambda>c2.
                    if truthy c2 then
                      bindE (bindE (getField jsonData (js ''lastName'')) callTrim) (\<lambda>l.
                      bindE (bindE (getField jsonData (js ''firstName'')) callTrim) (\<lambda>f.
                      bindE (bindE (getField jsonData (js ''country'')) callTrim) (\<lambda>c.
                        Inr (Some \<lparr> name = l @ js '', '' @ f, country = c \<rparr>))))
                    else Inr None)))"

text \<open>\<open>qrData.split('\n')\<close>: the pieces between the line feeds, the empty ones too.\<close>

primrec split_lines :: "jsstring \<Rightarrow> jsstring list" where
  "split_lines [] = [[]]"
| "split_lines (c # cs) =
     (if c = 0x0A then [] # split_lines cs
      else case split_lines cs of
             l # ls \<Rightarrow> (c # l) # ls
           | [] \<Rightarrow> [[c]])"

text \<open>\<open>qrData.split('\n').filter(line => line.trim())\<close>: a line is kept when its
  \<open>trim()\<close> is truthy, that is not empty.\<close>

definition nonBlankLines :: "jsstring \<Rightarrow> jsstring list" where
  "nonBlankLines qrData = filter (\<lambda>line. trim line \<noteq> []) (split_lines qrData)"

text \<open>Strategy 5 and the final \<open>return\<close>.\<close>

definition lineStrategy :: "jsstring \<Rightarrow> identity" where
  "lineStrategy qrData =
     (let lines = nonBlankLines qrData
      in if length lines \<ge> 3 then
           \<lparr> name = trim (lines ! 0) @ js '', '' @ trim (lines ! 1), country = trim (lines ! 2) \<rparr>
         else if length lines \<ge> 2 then
           \<lparr> name = trim (lines ! 0), country = trim (lines ! 1) \<rparr>
         else \<lparr> name = [], country = [] \<rparr>)"

text \<open>
  \<open>parseQRContent\<close>. \<open>m[i]\<close> for a match \<open>m\<close> is its \<open>i\<close>-th group, here
  \<open>group m i\<close>; every successful match of a pattern has all the pattern's groups. The
  result is \<open>Inr\<close> of the returned object; \<open>Inl\<close> would be an exception leaving the
  function, and the \<open>catch\<close> of strategy 4 turns each into a fall-through.
\<close>

definition group :: "jsstring list \<Rightarrow> nat \<Rightarrow> jsstring" where
  "group m i = m ! (i - 1)"

definition parseQRContent :: "jsstring \<Rightarrow> js_error + identity" where
  "parseQRContent qrData =
     (case match qrData threePartRe of
        Some threePartMatch \<Rightarrow>
          Inr \<lparr> name = trim (group threePartMatch 1) @ js '', '' @ trim (group threePartMatch 2),
                country = trim (group threePartMatch 3) \<rparr>
      | None \<Rightarrow>
     (case match qrData labeledRe of
        Some labeledMatch \<Rightarrow>
          Inr \<lparr> name = trim (group labeledMatch 1), country = trim (group labeledMatch 2) \<rparr>
      | None \<Rightarrow>
     (case match qrData simpleRe of
        Some simpleMatch \<Rightarrow>
          Inr \<lparr> name = trim (group simpleMatch 1), country = trim (group simpleMatch 2) \<rparr>
      | None \<Rightarrow>
     (case jsonStrategy qrData of
        Inr (Some result) \<Rightarrow> Inr result
      | Inr None \<Rightarrow> Inr (lineStrategy qrData)
      | Inl e \<Rightarrow> Inr (lineStrategy qrData)))))"

text \<open>For the statements about the comma forms: the text before the first comma of a
  payload, and the text after it.\<close>

definition beforeComma :: "jsstring \<Rightarrow> jsstring" where
  "beforeComma s = takeWhile notComma s"

definition afterComma :: "jsstring \<Rightarrow> jsstring" where
  "afterComma s = tl (dropWhile notComma s)"


section \<open>The scanner\<close>

text \<open>
  The fields of \<open>QRAttendanceScanner\<close> that the attendance logic reads and writes, and
  the item \<open>qr_attendance_records\<close> of the browser's local storage. A
  \<open>scan_timestamp\<close> is kept as the time value, in milliseconds, that
  \<open>new Date(record.scan_timestamp)\<close> gives back.
\<close>

record attendance = identity +
  id' :: jsstring
  scan_timestamp :: int
  raw_qr_data :: jsstring
  created_at :: int
  updated_at :: int

record scanner =
  scanning :: bool
  lastScannedCode :: "jsstring option"
  lastScanTime :: int
  scanCooldown :: int
  useLocalStorage :: bool
  scannedQRCodes :: "jsstring set"
  localStorage :: "attendance list"

text \<open>
  A method declared \<open>async\<close> runs until its first \<open>await\<close> and suspends there. The
  model of such a method is this first part: it returns the effect \<open>Fetch\<close> of the request
  it waits for, and the state as it is then. The rest of the method is a second function,
  named after the method with the suffix \<open>_settled\<close>, which takes the reply:
  \<open>Succeeded data\<close> when the response is \<open>ok\<close> (for a list request \<open>data\<close> is its
  \<open>data.data || []\<close>), and \<open>Unavailable\<close> when the \<open>try\<close> block around the
  \<open>fetch\<close> throws (no connection, a status that is not \<open>ok\<close>). The requests are
  \<open>GET tables/attendance\<close>, alone or with its \<open>limit\<close>,
  \<open>POST tables/attendance\<close> with the record, and \<open>DELETE tables/attendance/id\<close>.
\<close>

datatype request = ListRecords | GetRecords nat | PostRecord attendance | DeleteById jsstring

datatype reply = Succeeded "attendance list" | Unavailable

text \<open>What a method shows to the user and what it leaves pending: the error panel
  (\<open>displayError\<close>, with title and message; \<open>SaveFailed\<close> is the panel of a failed
  save, whose title ends with the message of the exception), the success feedback, the result
  panel, the timer that sets \<open>scanning\<close> again, a request, an \<open>alert\<close>, and the
  download of the exported text.\<close>

datatype effect =
    DisplayError string string
  | SaveFailed
  | ShowScanSuccess
  | DisplayScanResult identity
  | ResumeScanningAfter nat
  | Fetch request
  | Alert string
  | Download jsstring

text \<open>The values that \<open>saveAttendance\<close> takes from \<open>generateId()\<close> and from the clock,
  and whether its \<open>localStorage.setItem\<close> succeeds (it throws when the storage is full).\<close>

record fresh =
  generatedId :: jsstring
  scanTimestamp :: int
  createdAt :: int
  updatedAt :: int
  writeSucceeds :: bool

definition getLocalStorageRecords :: "scanner \<Rightarrow> attendance list" where
  "getLocalStorageRecords s = localStorage s"

definition saveToLocalStorage :: "attendance \<Rightarrow> scanner \<Rightarrow> scanner" where
  "saveToLocalStorage r s = s\<lparr>localStorage := getLocalStorageRecords s @ [r]\<rparr>"

text \<open>\<open>populateScannedQRCodes\<close>: the set is cleared, then every record with a truthy
  (non-empty) \<open>raw_qr_data\<close> adds it.\<close>

definition populateScannedQRCodes :: "attendance list \<Rightarrow> scanner \<Rightarrow> scanner" where
  "populateScannedQRCodes records s =
     s\<lparr>scannedQRCodes :=
         foldl (\<lambda>codes r. if raw_qr_data r \<noteq> [] then insert (raw_qr_data r) codes else codes)
               {} records\<rparr>"

text \<open>
  \<open>loadAttendanceRecords\<close>. \<open>loadFromLocalStorage\<close> is its second \<open>try\<close> block.
  While \<open>useLocalStorage\<close> is false the method asks the API for at most 100 records and
  rebuilds the set from the reply; when the API is unavailable it sets \<open>useLocalStorage\<close>
  and reads local storage.
\<close>

definition loadFromLocalStorage :: "scanner \<Rightarrow> scanner" where
  "loadFromLocalStorage s = populateScannedQRCodes (getLocalStorageRecords s) s"

definition loadAttendanceRecords :: "scanner \<Rightarrow> effect list \<times> scanner" where
  "loadAttendanceRecords s =
     (if \<not> useLocalStorage s then ([Fetch (GetRecords 100)], s)
      else ([], loadFromLocalStorage s))"

definition loadAttendanceRecords_settled :: "reply \<Rightarrow> scanner \<Rightarrow> scanner" where
  "loadAttendanceRecords_settled response s =
     (case response of
        Succeeded records \<Rightarrow> populateScannedQRCodes records s
      | Unavailable \<Rightarrow> loadFromLocalStorage (s\<lparr>useLocalStorage := True\<rparr>))"

text \<open>\<open>testAPI\<close>, which the page calls two seconds after the constructor: the only method
  that sets \<open>useLocalStorage\<close> back to false.\<close>

definition testAPI :: "scanner \<Rightarrow> effect list \<times> scanner" where
  "testAPI s = ([Fetch ListRecords], s)"

definition testAPI_settled :: "reply \<Rightarrow> scanner \<Rightarrow> effect list \<times> scanner" where
  "testAPI_settled response s =
     (case response of
        Succeeded getData \<Rightarrow> ([], s\<lparr>useLocalStorage := False\<rparr>)
      | Unavailable \<Rightarrow> loadAttendanceRecords (s\<lparr>useLocalStorage := True\<rparr>))"

text \<open>The constructor: the object it returns. Its last statement calls
  \<open>loadAttendanceRecords\<close>, which at this point only sends its request; \<open>stored\<close> is
  what the browser's local storage holds.\<close>

definition constructor :: "attendance list \<Rightarrow> scanner" where
  "constructor stored =
     snd (loadAttendanceRecords
       \<lparr> scanning = False, lastScannedCode = None, lastScanTime = 0, scanCooldown = 2000,
         useLocalStorage = False, scannedQRCodes = {}, localStorage = stored \<rparr>)"

text \<open>
  \<open>saveAttendance\<close>. \<open>saveLocally\<close> is its second \<open>try\<close> block with its
  \<open>catch\<close>: when the write throws, nothing is stored and nothing is reloaded.
\<close>

definition saveLocally :: "attendance \<Rightarrow> bool \<Rightarrow> scanner \<Rightarrow> effect list \<times> scanner" where
  "saveLocally attendanceData written s =
     (if written then loadAttendanceRecords (saveToLocalStorage attendanceData s)
      else ([SaveFailed], s))"

definition newAttendance :: "jsstring \<Rightarrow> jsstring \<Rightarrow> jsstring \<Rightarrow> fresh \<Rightarrow> attendance" where
  "newAttendance nm ctry rawData fr =
     \<lparr> name = nm, country = ctry, id' = generatedId fr,
       scan_timestamp = scanTimestamp fr, raw_qr_data = rawData,
       created_at = createdAt fr, updated_at = updatedAt fr \<rparr>"

definition saveAttendance ::
  "jsstring \<Rightarrow> jsstring \<Rightarrow> jsstring \<Rightarrow> fresh \<Rightarrow> scanner \<Rightarrow> effect list \<times> scanner" where
  "saveAttendance nm ctry rawData fr s =
     (let attendanceData = newAttendance nm ctry rawData fr
      in if \<not> useLocalStorage s then ([Fetch (PostRecord attendanceData)], s)
         else saveLocally attendanceData (writeSucceeds fr) s)"


definition clearScannedQRCodes :: "scanner \<Rightarrow> scanner" where
  "clearScannedQRCodes s = s\<lparr>scannedQRCodes := {}\<rparr>"

text \<open>
  \<open>clearAllAttendance\<close>. With the API it first asks for at most 1000 records, then
  deletes them one request after the other (\<open>clearAllAttendance_deleting\<close> with the
  records still to delete, and \<open>clearAllAttendance_deleted\<close> when a deletion has
  settled, whatever the reply), then clears the set and reloads. With local storage it removes
  the item.
\<close>

definition clearAllAttendance_finish :: "scanner \<Rightarrow> effect list \<times> scanner" where
  "clearAllAttendance_finish s = loadAttendanceRecords (s\<lparr>scannedQRCodes := {}\<rparr>)"

definition clearAllAttendance_deleting :: "attendance list \<Rightarrow> scanner \<Rightarrow> effect list \<times> scanner" where
  "clearAllAttendance_deleting records s =
     (case records of
        [] \<Rightarrow> clearAllAttendance_finish s
      | record # remaining \<Rightarrow> ([Fetch (DeleteById (id' record))], s))"

definition clearAllAttendance_deleted ::
  "attendance list \<Rightarrow> reply \<Rightarrow> scanner \<Rightarrow> effect list \<times> scanner" where
  "clearAllAttendance_deleted remaining response s = clearAllAttendance_deleting remaining s"




text \<open>
  \<open>deleteRecord\<close>; \<open>confirmed\<close> is the user's answer to the \<open>confirm\<close> dialog,
  \<open>written\<close> whether the \<open>localStorage.setItem\<close> of the local branch succeeds (when it
  throws, the outer \<open>catch\<close> only reports). \<open>deleteLocally\<close> is that local branch.
\<close>

definition deleteLocally :: "jsstring \<Rightarrow> bool \<Rightarrow> scanner \<Rightarrow> effect list \<times> scanner" where
  "deleteLocally recordId written s =
     (if written then
        let records = getLocalStorageRecords s;
            recordToDelete = find (\<lambda>r. id' r = recordId) records;
            s1 = s\<lparr>localStorage := filter (\<lambda>r. id' r \<noteq> recordId) records\<rparr>;
            s2 = (case recordToDelete of
                    Some r \<Rightarrow>
                      if raw_qr_data r \<noteq> []
                      then s1\<lparr>scannedQRCodes := scannedQRCodes s1 - {raw_qr_data r}\<rparr>
                      else s1
                  | None \<Rightarrow> s1)
        in loadAttendanceRecords s2
      else ([], s))"

definition deleteRecord :: "jsstring \<Rightarrow> bool \<Rightarrow> bool \<Rightarrow> scanner \<Rightarrow> effect list \<times> scanner" where
  "deleteRecord recordId confirmed written s =
     (if confirmed then
        if \<not> useLocalStorage s then ([Fetch (DeleteById recordId)], s)
        else deleteLocally recordId written s
      else ([], s))"

definition deleteRecord_settled ::
  "jsstring \<Rightarrow> bool \<Rightarrow> reply \<Rightarrow> scanner \<Rightarrow> effect list \<times> scanner" where
  "deleteRecord_settled recordId written response s =
     (case response of
        Succeeded deleted \<Rightarrow> loadAttendanceRecords s
      | Unavailable \<Rightarrow> deleteLocally recordId written (s\<lparr>useLocalStorage := True\<rparr>))"

definition invalidFormat :: effect where
  \<open>invalidFormat =
     DisplayError ''Invalid QR Format'' ''Expected format: "LAST NAME, First Name, Country"''\<close>

definition duplicateError :: effect where
  "duplicateError =
     DisplayError ''QR Code Already Scanned!''
       ''This attendance has already been recorded in this session.''"

definition processingError :: effect where
  "processingError = DisplayError ''Processing Error'' ''Unable to process QR code data''"

text \<open>\<open>processQRData\<close>: the \<open>Inl\<close> branch is its \<open>catch\<close> block. The call of
  \<open>saveAttendance\<close> is not awaited.\<close>

definition processQRData :: "fresh \<Rightarrow> jsstring \<Rightarrow> scanner \<Rightarrow> effect list \<times> scanner" where
  "processQRData fr qrData s =
     (case parseQRContent qrData of
        Inl e \<Rightarrow> ([processingError], s)
      | Inr parsedData \<Rightarrow>
          if name parsedData \<noteq> [] \<and> country parsedData \<noteq> [] then
            let s1 = s\<lparr>scannedQRCodes := insert qrData (scannedQRCodes s)\<rparr>;
                (saving, s2) = saveAttendance (name parsedData) (country parsedData) qrData fr s1
            in ([ShowScanSuccess] @ saving @ [DisplayScanResult parsedData], s2)
          else ([invalidFormat], s))"

text \<open>The test of \<open>processQRData\<close> on the parsed data: name and country both truthy.\<close>

definition validPayload :: "jsstring \<Rightarrow> bool" where
  "validPayload qrData =
     (case parseQRContent qrData of
        Inl e \<Rightarrow> False
      | Inr parsedData \<Rightarrow> name parsedData \<noteq> [] \<and> country parsedData \<noteq> [])"

text \<open>\<open>handleQRDetected\<close>; \<open>now\<close> is the value of \<open>Date.now()\<close>.\<close>

definition handleQRDetected ::
  "int \<Rightarrow> fresh \<Rightarrow> jsstring \<Rightarrow> scanner \<Rightarrow> effect list \<times> scanner" where
  "handleQRDetected now fr qrData s =
     (if lastScannedCode s = Some qrData \<and> now - lastScanTime s < scanCooldown s then ([], s)
      else if qrData \<in> scannedQRCodes s then ([duplicateError], s)
      else
        let s1 = s\<lparr>scanning := False, lastScannedCode := Some qrData, lastScanTime := now\<rparr>;
            (effects, s2) = processQRData fr qrData s1
        in (effects @ [ResumeScanningAfter 1000], s2))"


text \<open>
  The contract of the deduplication policy in the specification, which the source does not
  have as a function of its own: it is the two tests at the head of
  \<open>handleQRDetected\<close>.
\<close>

datatype decision = ACCEPT | SUPPRESS_COOLDOWN | REJECT_DUPLICATE

definition decide ::
  "jsstring \<Rightarrow> int \<Rightarrow> jsstring option \<Rightarrow> int \<Rightarrow> jsstring set \<Rightarrow> int \<Rightarrow> decision" where
  "decide payload now lastPayload lastAcceptedAt seenSet cooldownMs =
     (if lastPayload = Some payload \<and> now - lastAcceptedAt < cooldownMs then SUPPRESS_COOLDOWN
      else if payload \<in> seenSet then REJECT_DUPLICATE
      else ACCEPT)"

text \<open>
  The invariant of the specification's data model, for a record collection: the payloads in
  the set are those of the records. \<open>seenInvariant\<close> takes the records of local storage,
  the collection of the scanner once \<open>useLocalStorage\<close> is true. \<open>keyedRecords\<close>:
  every record of local storage carries a payload, as every record that
  \<open>saveAttendance\<close> writes does.
\<close>

definition seenSetOf :: "attendance list \<Rightarrow> jsstring set" where
  "seenSetOf records = raw_qr_data ` set records - {[]}"



section \<open>CSV export\<close>

text \<open>
  \<open>toLocaleDateString\<close>, \<open>toLocaleTimeString\<close> and \<open>toLocaleString\<close> of a
  \<open>Date\<close> depend on the browser's locale; they are parameters.
\<close>

record locale_format =
  toLocaleDateString :: "int \<Rightarrow> jsstring"
  toLocaleTimeString :: "int \<Rightarrow> jsstring"
  toLocaleString :: "int \<Rightarrow> jsstring"

text \<open>\<open>Array.prototype.sort\<close> with a comparator: a stable sort that puts \<open>a\<close> before
  \<open>b\<close> when \<open>cmp a b\<close> is negative and keeps their order when it is zero.\<close>

fun insert_by :: "('a \<Rightarrow> 'a \<Rightarrow> int) \<Rightarrow> 'a \<Rightarrow> 'a list \<Rightarrow> 'a list" where
  "insert_by cmp x [] = [x]"
| "insert_by cmp x (y # ys) = (if cmp x y \<le> 0 then x # y # ys else y # insert_by cmp x ys)"

definition sort_by :: "('a \<Rightarrow> 'a \<Rightarrow> int) \<Rightarrow> 'a list \<Rightarrow> 'a list" where
  "sort_by cmp xs = foldr (insert_by cmp) xs []"

text \<open>\<open>Array.prototype.join\<close>.\<close>

fun join :: "jsstring list \<Rightarrow> jsstring \<Rightarrow> jsstring" where
  "join [] sep = []"
| "join [x] sep = x"
| "join (x # y # ys) sep = x @ sep @ join (y # ys) sep"

text \<open>The decimal digits of a row number, as \<open>join\<close> writes a number.\<close>

definition digitChar :: "nat \<Rightarrow> jschar" where
  "digitChar d = js ''0123456789'' ! d"

fun toString :: "nat \<Rightarrow> jsstring" where
  "toString n =
     (if n < 10 then [digitChar n] else toString (n div 10) @ [digitChar (n mod 10)])"

declare toString.simps [simp del]

text \<open>\<^verbatim>\<open>replace(/"/g, '""')\<close>\<close>

definition doubleQuotes :: "jsstring \<Rightarrow> jsstring" where
  "doubleQuotes s = concat (map (\<lambda>c. if c = ch CHR 0x22 then [c, c] else [c]) s)"

definition quoted :: "jsstring \<Rightarrow> jsstring" where
  "quoted s = [ch CHR 0x22] @ s @ [ch CHR 0x22]"

definition csvHeaders :: "jsstring list" where
  "csvHeaders = [js ''No.'', js ''Name'', js ''Country'', js ''Scan Date'', js ''Scan Time'',
                 js ''Full Timestamp'']"

text \<open>The array \<open>row\<close> built for the record at position \<open>index\<close>.\<close>

definition csvRow :: "locale_format \<Rightarrow> nat \<Rightarrow> attendance \<Rightarrow> jsstring list" where
  "csvRow fmt index record =
     [toString (index + 1),
      quoted (doubleQuotes (name record)),
      quoted (doubleQuotes (country record)),
      quoted (toLocaleDateString fmt (scan_timestamp record)),
      quoted (toLocaleTimeString fmt (scan_timestamp record)),
      quoted (toLocaleString fmt (scan_timestamp record))]"

definition newestFirst :: "attendance list \<Rightarrow> attendance list" where
  "newestFirst records = sort_by (\<lambda>a b. scan_timestamp b - scan_timestamp a) records"

definition csvRows :: "locale_format \<Rightarrow> attendance list \<Rightarrow> jsstring list" where
  "csvRows fmt records =
     join csvHeaders (js '','')
     # map (\<lambda>(index, record). join (csvRow fmt index record) (js '',''))
           (zip [0 ..< length records] records)"

text \<open>
  \<open>exportToCSV\<close>. \<open>exportRecords\<close> is the method from its test of
  \<open>records.length\<close> on, for the records it has got: with none it only alerts, otherwise it
  sorts them, builds the rows and hands the text to the browser for download. While
  \<open>useLocalStorage\<close> is false the records are the API's reply to a request for at most
  1000; after the reply the method reads \<open>useLocalStorage\<close> again and takes the records
  of local storage when it is true.
\<close>

definition exportRecords :: "locale_format \<Rightarrow> attendance list \<Rightarrow> scanner \<Rightarrow> effect list \<times> scanner" where
  "exportRecords fmt records s =
     (if length records = 0 then ([Alert ''No attendance records to export.''], s)
      else ([Download (join (csvRows fmt (newestFirst records)) [0x0A])], s))"

definition exportToCSV :: "locale_format \<Rightarrow> scanner \<Rightarrow> effect list \<times> scanner" where
  "exportToCSV fmt s =
     (if \<not> useLocalStorage s then ([Fetch (GetRecords 1000)], s)
      else exportRecords fmt (getLocalStorageRecords s) s)"

definition exportToCSV_settled :: "locale_format \<Rightarrow> reply \<Rightarrow> scanner \<Rightarrow> effect list \<times> scanner" where
  "exportToCSV_settled fmt response s =
     (let (records, s1) =
            (case response of
               Succeeded data \<Rightarrow> (data, s)
             | Unavailable \<Rightarrow> ([], s\<lparr>useLocalStorage := True\<rparr>))
      in if useLocalStorage s1 then exportRecords fmt (getLocalStorageRecords s1) s1
         else exportRecords fmt records s1)"

text \<open>
  The reading of the body of a quoted CSV field (RFC 4180): two double quotes stand for one,
  a single one is not allowed.
\<close>

fun unquote :: "jsstring \<Rightarrow> jsstring option" where
  "unquote [] = Some []"
| "unquote [c] = (if c = ch CHR 0x22 then None else Some [c])"
| "unquote (c # d # cs) =
     (if c = ch CHR 0x22 then (if d = ch CHR 0x22 then map_option ((#) c) (unquote cs) else None)
      else map_option ((#) c) (unquote (d # cs)))"

section \<open>Example payloads\<close>

definition freshA :: fresh where
  "freshA = \<lparr> generatedId = js ''record_A'', scanTimestamp = 10000, createdAt = 10000,
               updatedAt = 10000, writeSucceeds = True \<rparr>"

definition freshB :: fresh where
  "freshB = \<lparr> generatedId = js ''record_B'', scanTimestamp = 20000, createdAt = 20000,
               updatedAt = 20000, writeSucceeds = True \<rparr>"


definition exampleFormat :: locale_format where
  "exampleFormat = \<lparr> toLocaleDateString = (\<lambda>t. js ''d''), toLocaleTimeString = (\<lambda>t. js ''t''),
                      toLocaleString = (\<lambda>t. js ''f'') \<rparr>"

text \<open>A new scanner whose first load found the API unavailable and local storage empty.\<close>

definition offline :: scanner where
  "offline = loadAttendanceRecords_settled Unavailable (constructor [])"

text \<open>The offline scanner after a first accepted scan, and after a second one.\<close>

definition scannedOnce :: scanner where
  "scannedOnce = snd (handleQRDetected 10000 freshA (js ''DOE, John, USA'') offline)"

definition scannedTwice :: scanner where
  \<open>scannedTwice = snd (handleQRDetected 20000 freshB (js ''Jane "JR" Roe, Canada'') scannedOnce)\<close>

text \<open>The offline scanner after a scan, the clearing of the blocked set, and a second scan of
  the same code.\<close>

definition rescanned :: scanner where
  "rescanned =
     snd (handleQRDetected 20000 freshB (js ''DOE, John, USA'') (clearScannedQRCodes scannedOnce))"

text \<open>A record as the API may hold it.\<close>

definition remoteRecord :: attendance where
  "remoteRecord = newAttendance (js ''Jane Roe'') (js ''Canada'') (js ''Jane Roe, Canada'') freshA"

definition payloadNameCountry :: jsstring where
  \<open>payloadNameCountry = js ''{"name":" Jane Roe ","country":\<newline>"Canada"}''\<close>

definition payloadLastFirst :: jsstring where
  \<open>payloadLastFirst = js ''{"lastName":"DOE","firstName":"John","country":\<newline>"USA"}''\<close>

definition payloadEmptyName :: jsstring where
  \<open>payloadEmptyName = js ''{"name":"","country":\<newline>"X"}''\<close>

definition payloadLabelInside :: jsstring where
  \<open>payloadLabelInside = js ''{"x":"Name: A, Country: B"}''\<close>

text \<open>The example of the JSON format in the repository's README.\<close>

definition payloadReadmeJson :: jsstring where
  \<open>payloadReadmeJson = js ''{"lastName": "DOE", "firstName": "John", "country": "USA"}''\<close>


section \<open>Properties of the matcher\<close>

lemma backtrack_SomeD:
  "backtrack f lo hi = Some r \<Longrightarrow> \<exists>k. lo \<le> k \<and> k \<le> hi \<and> f k = Some r"
proof (induction hi)
  case 0
  then show ?case by (auto split: if_splits)
next
  case (Suc hi)
  show ?case
  proof (cases "f (Suc hi)")
    case None
    with Suc.prems have "backtrack f lo hi = Some r" by (simp split: if_splits)
    from Suc.IH[OF this] show ?thesis by (auto intro: le_SucI)
  next
    case (Some r')
    with Suc.prems have "\<not> Suc hi < lo" "f (Suc hi) = Some r" by (auto split: if_splits)
    then show ?thesis by (intro exI[of _ "Suc hi"]) simp
  qed
qed

lemma backtrack_NoneD:
  "backtrack f lo hi = None \<Longrightarrow> lo \<le> k \<Longrightarrow> k \<le> hi \<Longrightarrow> f k = None"
  by (induction hi) (auto split: if_splits option.splits simp: le_Suc_eq)

lemma re_match_Cons_SomeD:
  assumes "re_match (Piece cls q cap # ps) eol s = Some gs"
  shows "\<exists>k gs'. k \<le> length (takeWhile cls s) \<and> (q = Once \<longrightarrow> k = 1) \<and> (q \<noteq> Star \<longrightarrow> 1 \<le> k)
           \<and> re_match ps eol (drop k s) = Some gs' \<and> gs = (if cap then take k s # gs' else gs')"
proof (cases q)
  case Once
  with assms show ?thesis
    by (intro exI[of _ 1]) (auto simp: Let_def Suc_le_eq split: if_splits)
next
  case Star
  with assms have "backtrack (\<lambda>k. map_option (\<lambda>gs. if cap then take k s # gs else gs)
      (re_match ps eol (drop k s))) 0 (length (takeWhile cls s)) = Some gs"
    by (simp add: Let_def)
  from backtrack_SomeD[OF this] Star show ?thesis by auto
next
  case Plus
  with assms have "backtrack (\<lambda>k. map_option (\<lambda>gs. if cap then take k s # gs else gs)
      (re_match ps eol (drop k s))) 1 (length (takeWhile cls s)) = Some gs"
    by (simp add: Let_def)
  from backtrack_SomeD[OF this] Plus show ?thesis by auto
qed

lemma re_match_Cons_SomeI:
  assumes "k \<le> length (takeWhile cls s)" "q = Once \<longrightarrow> k = 1" "q \<noteq> Star \<longrightarrow> 1 \<le> k"
    and "re_match ps eol (drop k s) \<noteq> None"
  shows "re_match (Piece cls q cap # ps) eol s \<noteq> None"
proof (cases q)
  case Once
  with assms show ?thesis by (auto simp: Let_def)
next
  case Star
  show ?thesis
  proof
    assume "re_match (Piece cls q cap # ps) eol s = None"
    with Star have "backtrack (\<lambda>k. map_option (\<lambda>gs. if cap then take k s # gs else gs)
      (re_match ps eol (drop k s))) 0 (length (takeWhile cls s)) = None"
      by (simp add: Let_def)
    from backtrack_NoneD[OF this, of k] assms show False by auto
  qed
next
  case Plus
  show ?thesis
  proof
    assume "re_match (Piece cls q cap # ps) eol s = None"
    with Plus have "backtrack (\<lambda>k. map_option (\<lambda>gs. if cap then take k s # gs else gs)
      (re_match ps eol (drop k s))) 1 (length (takeWhile cls s)) = None"
      by (simp add: Let_def)
    from backtrack_NoneD[OF this, of k] assms Plus show False by auto
  qed
qed

lemma take_le_takeWhile:
  "k \<le> length (takeWhile P s) \<Longrightarrow> x \<in> set (take k s) \<Longrightarrow> P x"
proof (induction s arbitrary: k)
  case Nil
  then show ?case by simp
next
  case (Cons a s)
  then show ?case by (cases k) (auto split: if_splits)
qed

lemma takeWhile_split:
  assumes "\<forall>x\<in>set (take k s). P x" "k < length s" "\<not> P (s ! k)"
  shows "takeWhile P s = take k s" "dropWhile P s = drop k s"
proof -
  have s: "s = take k s @ (s ! k) # drop (Suc k) s"
    using assms(2) by (simp add: id_take_nth_drop)
  have "takeWhile P (take k s @ (s ! k) # drop (Suc k) s) = take k s"
    using assms by (simp add: takeWhile_tail)
  with s show "takeWhile P s = take k s" by simp
  have "dropWhile P (take k s @ (s ! k) # drop (Suc k) s) = (s ! k) # drop (Suc k) s"
    using assms by (simp add: dropWhile_append3)
  with s show "dropWhile P s = drop k s"
    using assms(2) by (metis Cons_nth_drop_Suc)
qed


lemma lit_SomeD:
  assumes "re_match (lit c # ps) eol s = Some gs"
  shows "s \<noteq> [] \<and> hd s = ch c \<and> re_match ps eol (tl s) = Some gs"
proof -
  from assms have "re_match (Piece (\<lambda>x. x = ch c) Once False # ps) eol s = Some gs"
    by (simp only: lit_def)
  from re_match_Cons_SomeD[OF this]
  obtain k gs' where k: "k \<le> length (takeWhile (\<lambda>x. x = ch c) s)" "k = 1"
    "re_match ps eol (drop k s) = Some gs'" "gs = gs'"
    by auto
  from k(1,2) have "s \<noteq> []" by auto
  moreover from k(1,2) have "hd s = ch c"
    using take_le_takeWhile[of 1 "\<lambda>x. x = ch c" s "hd s"] \<open>s \<noteq> []\<close>
    by (cases s) auto
  ultimately show ?thesis using k by (simp add: drop_Suc)
qed

lemma lit_SomeI:
  assumes "re_match ps eol s \<noteq> None"
  shows "re_match (lit c # ps) eol (ch c # s) \<noteq> None"
  unfolding lit_def using assms
  by (intro re_match_Cons_SomeI[where k = 1]) auto

lemma head_group:
  assumes "re_match (Piece notComma Plus True # lit CHR '','' # ps) eol s = Some gs"
  shows "\<exists>gs'. gs = beforeComma s # gs' \<and> beforeComma s \<noteq> []
           \<and> dropWhile notComma s = ch CHR '','' # afterComma s
           \<and> re_match ps eol (afterComma s) = Some gs'"
proof -
  from re_match_Cons_SomeD[OF assms] obtain k gs' where
    k: "k \<le> length (takeWhile notComma s)" "1 \<le> k"
    and r: "re_match (lit CHR '','' # ps) eol (drop k s) = Some gs'" and gs: "gs = take k s # gs'"
    by auto
  from lit_SomeD[OF r] have d: "drop k s \<noteq> []" "hd (drop k s) = ch CHR '',''"
    "re_match ps eol (tl (drop k s)) = Some gs'" by auto
  from d(1) have kl: "k < length s" by simp
  with d(2) have "s ! k = ch CHR '',''" by (simp add: hd_drop_conv_nth)
  then have nk: "\<not> notComma (s ! k)" by (simp add: notComma_def)
  have all: "\<forall>x\<in>set (take k s). notComma x"
    using take_le_takeWhile[OF k(1)] by blast
  from takeWhile_split[OF all kl nk] have tw: "takeWhile notComma s = take k s"
    and dw: "dropWhile notComma s = drop k s" by auto
  have "take k s \<noteq> []" using k(2) kl by auto
  moreover have "drop k s = ch CHR '','' # tl (drop k s)"
    using d(1,2) by (cases "drop k s") auto
  ultimately show ?thesis
    using gs d(3) tw dw by (auto simp: beforeComma_def afterComma_def)
qed

lemma isWhiteSpace_notComma: "isWhiteSpace c \<Longrightarrow> notComma c"
  by (auto simp: isWhiteSpace_def isLineTerminator_def notComma_def ch_def)

lemma trim_ws_prefix:
  assumes "\<forall>x\<in>set w. isWhiteSpace x"
  shows "trim (w @ t) = trim t"
proof -
  have "dropWhile isWhiteSpace (w @ t) = dropWhile isWhiteSpace t"
    using assms by (simp add: dropWhile_append2)
  then show ?thesis by (simp add: trim_def)
qed

lemma ws_star_SomeD:
  assumes "re_match (Piece isWhiteSpace Star False # ps) eol s = Some gs"
  shows "\<exists>k. (\<forall>x\<in>set (take k s). isWhiteSpace x) \<and> re_match ps eol (drop k s) = Some gs"
proof -
  from re_match_Cons_SomeD[OF assms] obtain k where
    "k \<le> length (takeWhile isWhiteSpace s)" "re_match ps eol (drop k s) = Some gs"
    by auto
  then show ?thesis using take_le_takeWhile[of k isWhiteSpace s] by blast
qed

lemma mid_group:
  assumes "re_match (Piece isWhiteSpace Star False # Piece notComma Plus True # lit CHR '','' # ps)
             eol s = Some gs"
  shows "\<exists>g gs'. gs = g # gs' \<and> trim g = trim (beforeComma s) \<and> beforeComma s \<noteq> []
           \<and> dropWhile notComma s = ch CHR '','' # afterComma s
           \<and> re_match ps eol (afterComma s) = Some gs'"
proof -
  from ws_star_SomeD[OF assms] obtain k where
    ws: "\<forall>x\<in>set (take k s). isWhiteSpace x"
    and r: "re_match (Piece notComma Plus True # lit CHR '','' # ps) eol (drop k s) = Some gs"
    by auto
  from head_group[OF r] obtain gs' where
    h: "gs = beforeComma (drop k s) # gs'" "beforeComma (drop k s) \<noteq> []"
       "dropWhile notComma (drop k s) = ch CHR '','' # afterComma (drop k s)"
       "re_match ps eol (afterComma (drop k s)) = Some gs'"
    by auto
  have nc: "\<And>x. x \<in> set (take k s) \<Longrightarrow> notComma x"
    using ws isWhiteSpace_notComma by blast
  have s: "s = take k s @ drop k s" by simp
  have bc: "beforeComma s = take k s @ beforeComma (drop k s)"
    unfolding beforeComma_def
    by (subst s) (simp only: takeWhile_append2[OF nc])
  have dw: "dropWhile notComma s = dropWhile notComma (drop k s)"
    by (subst s) (simp only: dropWhile_append2[OF nc])
  then have ac: "afterComma s = afterComma (drop k s)" by (simp add: afterComma_def)
  have "trim (beforeComma (drop k s)) = trim (beforeComma s)"
    unfolding bc using trim_ws_prefix[OF ws] by simp
  with h bc dw ac show ?thesis by auto
qed

lemma tail_group:
  assumes "re_match [Piece isWhiteSpace Star False, Piece dot Plus True] True s = Some gs"
  shows "\<exists>g. gs = [g] \<and> trim g = trim s"
proof -
  from ws_star_SomeD[OF assms] obtain k where
    ws: "\<forall>x\<in>set (take k s). isWhiteSpace x"
    and r: "re_match [Piece dot Plus True] True (drop k s) = Some gs"
    by auto
  from re_match_Cons_SomeD[OF r] obtain j gs' where
    j: "re_match [] True (drop j (drop k s)) = Some gs'" "gs = take j (drop k s) # gs'"
    by auto
  from j(1) have e: "drop j (drop k s) = []" "gs' = []" by (auto split: if_splits)
  then have "take j (drop k s) = drop k s" by (metis append_take_drop_id append_Nil2)
  with j(2) e have gs: "gs = [drop k s]" by simp
  have "trim (take k s @ drop k s) = trim (drop k s)" by (rule trim_ws_prefix[OF ws])
  with gs show ?thesis by simp
qed

lemma threePart_SomeD:
  assumes "match s threePartRe = Some m"
  shows "\<exists>g1 g2 g3. m = [g1, g2, g3] \<and> g1 = beforeComma s \<and> g1 \<noteq> []
           \<and> trim g2 = trim (beforeComma (afterComma s))
           \<and> trim g3 = trim (afterComma (afterComma s))
           \<and> s = beforeComma s @ ch CHR '','' # beforeComma (afterComma s)
                   @ ch CHR '','' # afterComma (afterComma s)"
proof -
  from assms have
    "re_match (Piece notComma Plus True # lit CHR '','' # Piece isWhiteSpace Star False #
               Piece notComma Plus True # lit CHR '','' #
               [Piece isWhiteSpace Star False, Piece dot Plus True]) True s = Some m"
    by (simp add: match_def threePartRe_def)
  from head_group[OF this] obtain m1 where
    1: "m = beforeComma s # m1" "beforeComma s \<noteq> []"
       "dropWhile notComma s = ch CHR '','' # afterComma s"
    and r1: "re_match (Piece isWhiteSpace Star False # Piece notComma Plus True # lit CHR '','' #
               [Piece isWhiteSpace Star False, Piece dot Plus True]) True (afterComma s) = Some m1"
    by auto
  from mid_group[OF r1] obtain g2 m2 where
    2: "m1 = g2 # m2" "trim g2 = trim (beforeComma (afterComma s))"
       "dropWhile notComma (afterComma s) = ch CHR '','' # afterComma (afterComma s)"
    and r2: "re_match [Piece isWhiteSpace Star False, Piece dot Plus True] True
               (afterComma (afterComma s)) = Some m2"
    by auto
  from tail_group[OF r2] obtain g3 where
    3: "m2 = [g3]" "trim g3 = trim (afterComma (afterComma s))" by auto
  have "s = takeWhile notComma s @ dropWhile notComma s" by simp
  then have s1: "s = beforeComma s @ ch CHR '','' # afterComma s"
    using 1(3) by (simp add: beforeComma_def)
  have "afterComma s = takeWhile notComma (afterComma s) @ dropWhile notComma (afterComma s)"
    by simp
  then have s2: "afterComma s = beforeComma (afterComma s) @ ch CHR '','' # afterComma (afterComma s)"
    using 2(3) by (simp add: beforeComma_def)
  from s1 s2 have "s = beforeComma s @ ch CHR '','' # beforeComma (afterComma s)
                   @ ch CHR '','' # afterComma (afterComma s)" by simp
  with 1 2 3 show ?thesis by auto
qed

lemma simple_SomeD:
  assumes "match s simpleRe = Some m"
  shows "\<exists>g1 g2. m = [g1, g2] \<and> g1 = beforeComma s \<and> g1 \<noteq> []
           \<and> trim g2 = trim (afterComma s)
           \<and> s = beforeComma s @ ch CHR '','' # afterComma s"
proof -
  from assms have
    "re_match (Piece notComma Plus True # lit CHR '','' #
               [Piece isWhiteSpace Star False, Piece dot Plus True]) True s = Some m"
    by (simp add: match_def simpleRe_def)
  from head_group[OF this] obtain m1 where
    1: "m = beforeComma s # m1" "beforeComma s \<noteq> []"
       "dropWhile notComma s = ch CHR '','' # afterComma s"
    and r1: "re_match [Piece isWhiteSpace Star False, Piece dot Plus True] True (afterComma s) = Some m1"
    by auto
  from tail_group[OF r1] obtain g2 where
    2: "m1 = [g2]" "trim g2 = trim (afterComma s)" by auto
  have "s = takeWhile notComma s @ dropWhile notComma s" by simp
  then have s1: "s = beforeComma s @ ch CHR '','' # afterComma s"
    using 1(3) by (simp add: beforeComma_def)
  with 1 2 show ?thesis by auto
qed









section \<open>The payload parser\<close>

lemma match_groups_eval:
  "group (a # m) (Suc 0) = a" "group (a # b # m) 2 = b" "group (a # b # c # m) 3 = c"
  by (simp_all add: group_def numeral_2_eq_2 numeral_3_eq_3)

lemma threePart_result:
  assumes "match qrData threePartRe \<noteq> None"
  shows "parseQRContent qrData =
           Inr \<lparr> name = trim (beforeComma qrData) @ js '', '' @ trim (beforeComma (afterComma qrData)),
                 country = trim (afterComma (afterComma qrData)) \<rparr>"
proof -
  from assms obtain m where m: "match qrData threePartRe = Some m" by auto
  from threePart_SomeD[OF m] obtain g1 g2 g3 where
    "m = [g1, g2, g3]" "g1 = beforeComma qrData"
    "trim g2 = trim (beforeComma (afterComma qrData))"
    "trim g3 = trim (afterComma (afterComma qrData))"
    by auto
  with m show ?thesis by (simp add: parseQRContent_def match_groups_eval)
qed




text \<open>
  Claim C7. \<open>parseQRContent\<close> returns an identity for every payload: no exception leaves
  it, whatever \<open>JSON.parse\<close>, the property reads and \<open>trim\<close> throw inside strategy 4.
  A payload that no strategy matches gives the identity with empty name and country.
\<close>

theorem parseQRContent_total:
  "(\<exists>i. parseQRContent qrData = Inr i)
   \<and> (match qrData threePartRe = None \<and> match qrData labeledRe = None
      \<and> match qrData simpleRe = None \<and> (\<forall>i. jsonStrategy qrData \<noteq> Inr (Some i))
      \<and> length (nonBlankLines qrData) < 2
      \<longrightarrow> parseQRContent qrData = Inr \<lparr> name = [], country = [] \<rparr>)"
  by (auto simp: parseQRContent_def lineStrategy_def Let_def split: option.splits sum.splits)

theorem parseQRContent_total_witness:
  "jsonStrategy (js ''null'') = Inl TypeError
   \<and> jsonStrategy (js ''hello'') = Inl SyntaxError
   \<and> parseQRContent (js ''null'') = Inr \<lparr> name = [], country = [] \<rparr>
   \<and> parseQRContent (js ''hello'') = Inr \<lparr> name = [], country = [] \<rparr>"
proof -
  have n: "match (js ''null'') threePartRe = None" "match (js ''null'') labeledRe = None"
    "match (js ''null'') simpleRe = None" "jsonStrategy (js ''null'') = Inl TypeError"
    "length (nonBlankLines (js ''null'')) < 2"
    by code_simp+
  have h: "match (js ''hello'') threePartRe = None" "match (js ''hello'') labeledRe = None"
    "match (js ''hello'') simpleRe = None" "jsonStrategy (js ''hello'') = Inl SyntaxError"
    "length (nonBlankLines (js ''hello'')) < 2"
    by code_simp+
  from parseQRContent_total[of "js ''null''"] parseQRContent_total[of "js ''hello''"] n h
  show ?thesis by simp
qed

lemma split_lines_not_Nil: "split_lines s \<noteq> []"
  by (induction s) (auto split: list.splits)

lemma join_Cons: "ls \<noteq> [] \<Longrightarrow> join (l # ls) sep = l @ sep @ join ls sep"
  by (cases ls) auto

lemma join_split_lines: "join (split_lines s) [0x0A] = s"
proof (induction s)
  case Nil
  then show ?case by simp
next
  case (Cons c s)
  show ?case
  proof (cases "c = 0x0A")
    case True
    then show ?thesis using Cons by (simp add: join_Cons split_lines_not_Nil)
  next
    case False
    obtain l ls where l: "split_lines s = l # ls"
      using split_lines_not_Nil[of s] by (cases "split_lines s") auto
    show ?thesis
    proof (cases ls)
      case Nil
      with l Cons False show ?thesis by simp
    next
      case (Cons a list)
      with l Cons.IH False show ?thesis by simp
    qed
  qed
qed

lemma split_lines_no_LF: "l \<in> set (split_lines s) \<Longrightarrow> 0x0A \<notin> set l"
proof (induction s arbitrary: l)
  case Nil
  then show ?case by simp
next
  case (Cons c s)
  then show ?case
    by (cases "split_lines s") (auto split: if_splits)
qed

text \<open>
  Claim C8, as the code has it. A payload that strategies 1 to 4 leave unmatched is split at
  its line feeds and the lines that are blank after trimming are dropped. With three or more
  lines left, the first two, trimmed and joined by a comma and a space, are the name and the
  third, trimmed, is the country; further lines are ignored. With exactly two lines left the
  first is the name and the second the country. With fewer the identity is empty.
\<close>

theorem multi_line_strategy:
  assumes "match qrData threePartRe = None" "match qrData labeledRe = None"
    "match qrData simpleRe = None" "\<forall>i. jsonStrategy qrData \<noteq> Inr (Some i)"
  shows "nonBlankLines qrData = filter (\<lambda>line. trim line \<noteq> []) (split_lines qrData)
       \<and> join (split_lines qrData) [0x0A] = qrData
       \<and> (\<forall>line\<in>set (split_lines qrData). 0x0A \<notin> set line)
       \<and> (\<forall>l0 l1 l2 more. nonBlankLines qrData = l0 # l1 # l2 # more \<longrightarrow>
             parseQRContent qrData =
               Inr \<lparr> name = trim l0 @ js '', '' @ trim l1, country = trim l2 \<rparr>)
       \<and> (\<forall>l0 l1. nonBlankLines qrData = [l0, l1] \<longrightarrow>
             parseQRContent qrData = Inr \<lparr> name = trim l0, country = trim l1 \<rparr>)
       \<and> (length (nonBlankLines qrData) < 2 \<longrightarrow>
             parseQRContent qrData = Inr \<lparr> name = [], country = [] \<rparr>)"
proof -
  have p: "parseQRContent qrData = Inr (lineStrategy qrData)"
    using assms by (auto simp: parseQRContent_def split: sum.splits option.splits)
  show ?thesis
    unfolding p
    by (auto simp: lineStrategy_def Let_def nonBlankLines_def join_split_lines
             dest: split_lines_no_LF)
qed

theorem multi_line_strategy_witness:
  "parseQRContent (js ''DOE\<newline>John\<newline>USA'') = Inr \<lparr> name = js ''DOE, John'', country = js ''USA'' \<rparr>
   \<and> parseQRContent (js ''Jane Roe\<newline>\<newline> Canada '') = Inr \<lparr> name = js ''Jane Roe'', country = js ''Canada'' \<rparr>"
proof -
  have a: "match (js ''DOE\<newline>John\<newline>USA'') threePartRe = None"
    "match (js ''DOE\<newline>John\<newline>USA'') labeledRe = None"
    "match (js ''DOE\<newline>John\<newline>USA'') simpleRe = None"
    "jsonStrategy (js ''DOE\<newline>John\<newline>USA'') = Inl SyntaxError"
    "nonBlankLines (js ''DOE\<newline>John\<newline>USA'') = [js ''DOE'', js ''John'', js ''USA'']"
    "trim (js ''DOE'') = js ''DOE''" "trim (js ''John'') = js ''John''" "trim (js ''USA'') = js ''USA''"
    by code_simp+
  have b: "match (js ''Jane Roe\<newline>\<newline> Canada '') threePartRe = None"
    "match (js ''Jane Roe\<newline>\<newline> Canada '') labeledRe = None"
    "match (js ''Jane Roe\<newline>\<newline> Canada '') simpleRe = None"
    "jsonStrategy (js ''Jane Roe\<newline>\<newline> Canada '') = Inl SyntaxError"
    "nonBlankLines (js ''Jane Roe\<newline>\<newline> Canada '') = [js ''Jane Roe'', js '' Canada '']"
    "trim (js ''Jane Roe'') = js ''Jane Roe''" "trim (js '' Canada '') = js ''Canada''"
    by code_simp+
  from multi_line_strategy[OF a(1-3)] multi_line_strategy[OF b(1-3)] a(4-) b(4-)
  show ?thesis by (simp add: js_def)
qed

text \<open>A payload of four lines is matched by the three-line shape of strategy 5.\<close>

theorem four_lines_counterexample:
  "match (js ''A\<newline>B\<newline>C\<newline>D'') threePartRe = None
   \<and> match (js ''A\<newline>B\<newline>C\<newline>D'') labeledRe = None
   \<and> match (js ''A\<newline>B\<newline>C\<newline>D'') simpleRe = None
   \<and> jsonStrategy (js ''A\<newline>B\<newline>C\<newline>D'') = Inl SyntaxError
   \<and> length (nonBlankLines (js ''A\<newline>B\<newline>C\<newline>D'')) = 4
   \<and> parseQRContent (js ''A\<newline>B\<newline>C\<newline>D'') = Inr \<lparr> name = js ''A, B'', country = js ''C'' \<rparr>"
  by code_simp

lemma jsonStrategy_name_country:
  assumes "JSON_parse qrData = Some (JObject kvs)"
    and "map_of (rev kvs) (js ''name'') = Some (JString n)" "n \<noteq> []"
    and "map_of (rev kvs) (js ''country'') = Some (JString c)" "c \<noteq> []"
  shows "jsonStrategy qrData = Inr (Some \<lparr> name = trim n, country = trim c \<rparr>)"
  using assms by (simp add: jsonStrategy_def andAlso_def bindE_def)

lemma jsonStrategy_lastName_firstName:
  assumes "JSON_parse qrData = Some (JObject kvs)"
    and "\<not> truthy (map_of (rev kvs) (js ''name''))"
    and "map_of (rev kvs) (js ''lastName'') = Some (JString l)" "l \<noteq> []"
    and "map_of (rev kvs) (js ''firstName'') = Some (JString f)" "f \<noteq> []"
    and "map_of (rev kvs) (js ''country'') = Some (JString c)" "c \<noteq> []"
  shows "jsonStrategy qrData = Inr (Some \<lparr> name = trim l @ js '', '' @ trim f, country = trim c \<rparr>)"
  using assms by (simp add: jsonStrategy_def andAlso_def bindE_def)

lemma jsonStrategy_not_object:
  assumes "JSON_parse qrData = Some v" "\<forall>kvs. v \<noteq> JObject kvs"
  shows "jsonStrategy qrData = Inl TypeError \<or> jsonStrategy qrData = Inr None"
  using assms by (cases v) (simp_all add: jsonStrategy_def andAlso_def bindE_def)

lemma callTrim_Inr: "callTrim v = Inr x \<longleftrightarrow> (\<exists>s. v = Some (JString s) \<and> x = trim s)"
  by (cases v rule: callTrim.cases) auto

lemma truthy_string: "truthy (Some (JString s)) \<longleftrightarrow> s \<noteq> []"
  by simp

text \<open>The block of strategy 4 returns exactly for the objects of the two shapes.\<close>

lemma jsonStrategy_returns_iff:
  "jsonStrategy qrData = Inr (Some i) \<longleftrightarrow>
     (\<exists>kvs. JSON_parse qrData = Some (JObject kvs)
        \<and> ((\<exists>n c. map_of (rev kvs) (js ''name'') = Some (JString n) \<and> n \<noteq> []
                \<and> map_of (rev kvs) (js ''country'') = Some (JString c) \<and> c \<noteq> []
                \<and> i = \<lparr> name = trim n, country = trim c \<rparr>)
           \<or> (\<not> truthy (map_of (rev kvs) (js ''name''))
               \<and> (\<exists>l f c. map_of (rev kvs) (js ''lastName'') = Some (JString l) \<and> l \<noteq> []
                    \<and> map_of (rev kvs) (js ''firstName'') = Some (JString f) \<and> f \<noteq> []
                    \<and> map_of (rev kvs) (js ''country'') = Some (JString c) \<and> c \<noteq> []
                    \<and> i = \<lparr> name = trim l @ js '', '' @ trim f, country = trim c \<rparr>))))"
  (is "?L \<longleftrightarrow> ?R")
proof
  assume r: ?R
  then obtain kvs where k: "JSON_parse qrData = Some (JObject kvs)" by blast
  from r k show ?L
    using jsonStrategy_name_country[OF k] jsonStrategy_lastName_firstName[OF k] by auto
next
  assume l: ?L
  show ?R
  proof (cases "JSON_parse qrData")
    case None
    with l show ?thesis by (simp add: jsonStrategy_def)
  next
    case (Some v)
    show ?thesis
    proof (cases "\<exists>kvs. v = JObject kvs")
      case False
      with jsonStrategy_not_object[OF Some] l show ?thesis by auto
    next
      case True
      then obtain kvs where v: "v = JObject kvs" by blast
      let ?N = "map_of (rev kvs) (js ''name'')"
      let ?C = "map_of (rev kvs) (js ''country'')"
      let ?L = "map_of (rev kvs) (js ''lastName'')"
      let ?F = "map_of (rev kvs) (js ''firstName'')"
      show ?thesis
      proof (cases "truthy ?N \<and> truthy ?C")
        case True
        with l Some v have
          "bindE (callTrim ?N) (\<lambda>n. bindE (callTrim ?C) (\<lambda>c. Inr (Some \<lparr> name = n, country = c \<rparr>)))
             = Inr (Some i)"
          by (simp add: jsonStrategy_def andAlso_def bindE_def)
        then obtain n c where "callTrim ?N = Inr n" "callTrim ?C = Inr c"
          "i = \<lparr> name = n, country = c \<rparr>"
          by (auto simp: bindE_def split: sum.splits)
        then obtain n' c' where "?N = Some (JString n')" "?C = Some (JString c')"
          "i = \<lparr> name = trim n', country = trim c' \<rparr>"
          by (auto simp: callTrim_Inr)
        with True Some v show ?thesis by auto
      next
        case False
        then have c1: "\<not> truthy (if truthy ?N then ?C else ?N)" by auto
        have t: "truthy ?L \<and> truthy ?F \<and> truthy ?C"
        proof (rule ccontr)
          assume "\<not> (truthy ?L \<and> truthy ?F \<and> truthy ?C)"
          with l Some v c1 show False
            by (auto simp: jsonStrategy_def andAlso_def bindE_def split: if_splits)
        qed
        with False have nN: "\<not> truthy ?N" by auto
        from l Some v nN t have
          "bindE (callTrim ?L) (\<lambda>l. bindE (callTrim ?F) (\<lambda>f. bindE (callTrim ?C) (\<lambda>c.
              Inr (Some \<lparr> name = l @ js '', '' @ f, country = c \<rparr>)))) = Inr (Some i)"
          by (simp add: jsonStrategy_def andAlso_def bindE_def)
        then obtain l' f' c' where "callTrim ?L = Inr l'" "callTrim ?F = Inr f'" "callTrim ?C = Inr c'"
          "i = \<lparr> name = l' @ js '', '' @ f', country = c' \<rparr>"
          by (auto simp: bindE_def split: sum.splits)
        then obtain l2 f2 c2 where "?L = Some (JString l2)" "?F = Some (JString f2)"
          "?C = Some (JString c2)"
          "i = \<lparr> name = trim l2 @ js '', '' @ trim f2, country = trim c2 \<rparr>"
          by (auto simp: callTrim_Inr)
        with t nN Some v show ?thesis by auto
      qed
    qed
  qed
qed

text \<open>
  Claim C6, as the code has it. When strategies 1 to 3 leave a payload unmatched and it is a
  JSON object whose members \<open>name\<close> and \<open>country\<close> are non-empty strings, the result
  is these two strings, trimmed. When its \<open>name\<close> is missing or falsy and its members
  \<open>lastName\<close>, \<open>firstName\<close> and \<open>country\<close> are non-empty strings, the name is
  the trimmed last and first name joined by a comma and a space, and the country the trimmed
  \<open>country\<close>. The block of strategy 4 returns for these payloads only: for every other
  one, be it not JSON, JSON but not an object, or an object of neither shape (a member that
  is missing, empty, falsy or not a string), the result is that of strategy 5.
\<close>

theorem structured_form:
  assumes "match qrData threePartRe = None" "match qrData labeledRe = None"
    "match qrData simpleRe = None"
  shows "(\<forall>kvs n c. JSON_parse qrData = Some (JObject kvs)
            \<and> map_of (rev kvs) (js ''name'') = Some (JString n) \<and> n \<noteq> []
            \<and> map_of (rev kvs) (js ''country'') = Some (JString c) \<and> c \<noteq> []
          \<longrightarrow> parseQRContent qrData = Inr \<lparr> name = trim n, country = trim c \<rparr>)
       \<and> (\<forall>kvs l f c. JSON_parse qrData = Some (JObject kvs)
            \<and> \<not> truthy (map_of (rev kvs) (js ''name''))
            \<and> map_of (rev kvs) (js ''lastName'') = Some (JString l) \<and> l \<noteq> []
            \<and> map_of (rev kvs) (js ''firstName'') = Some (JString f) \<and> f \<noteq> []
            \<and> map_of (rev kvs) (js ''country'') = Some (JString c) \<and> c \<noteq> []
          \<longrightarrow> parseQRContent qrData = Inr \<lparr> name = trim l @ js '', '' @ trim f, country = trim c \<rparr>)
       \<and> (JSON_parse qrData = None \<or> (\<exists>v. JSON_parse qrData = Some v \<and> (\<forall>kvs. v \<noteq> JObject kvs))
          \<longrightarrow> parseQRContent qrData = Inr (lineStrategy qrData))
       \<and> (\<forall>kvs. JSON_parse qrData = Some (JObject kvs)
            \<and> \<not> (\<exists>n c. map_of (rev kvs) (js ''name'') = Some (JString n) \<and> n \<noteq> []
                       \<and> map_of (rev kvs) (js ''country'') = Some (JString c) \<and> c \<noteq> [])
            \<and> \<not> (\<not> truthy (map_of (rev kvs) (js ''name''))
                  \<and> (\<exists>l f c. map_of (rev kvs) (js ''lastName'') = Some (JString l) \<and> l \<noteq> []
                         \<and> map_of (rev kvs) (js ''firstName'') = Some (JString f) \<and> f \<noteq> []
                         \<and> map_of (rev kvs) (js ''country'') = Some (JString c) \<and> c \<noteq> []))
          \<longrightarrow> parseQRContent qrData = Inr (lineStrategy qrData))
       \<and> (jsonStrategy qrData = Inr (Some i) \<longleftrightarrow>
            (\<exists>kvs. JSON_parse qrData = Some (JObject kvs)
               \<and> ((\<exists>n c. map_of (rev kvs) (js ''name'') = Some (JString n) \<and> n \<noteq> []
                       \<and> map_of (rev kvs) (js ''country'') = Some (JString c) \<and> c \<noteq> []
                       \<and> i = \<lparr> name = trim n, country = trim c \<rparr>)
                  \<or> (\<not> truthy (map_of (rev kvs) (js ''name''))
                      \<and> (\<exists>l f c. map_of (rev kvs) (js ''lastName'') = Some (JString l) \<and> l \<noteq> []
                           \<and> map_of (rev kvs) (js ''firstName'') = Some (JString f) \<and> f \<noteq> []
                           \<and> map_of (rev kvs) (js ''country'') = Some (JString c) \<and> c \<noteq> []
                           \<and> i = \<lparr> name = trim l @ js '', '' @ trim f, country = trim c \<rparr>)))))
       \<and> ((\<forall>i. jsonStrategy qrData \<noteq> Inr (Some i)) \<longrightarrow>
             parseQRContent qrData = Inr (lineStrategy qrData))"
proof -
  have p: "parseQRContent qrData =
      (case jsonStrategy qrData of
         Inr (Some result) \<Rightarrow> Inr result
       | Inr None \<Rightarrow> Inr (lineStrategy qrData)
       | Inl e \<Rightarrow> Inr (lineStrategy qrData))"
    using assms by (simp add: parseQRContent_def)
  have a: "parseQRContent qrData = Inr \<lparr> name = trim n, country = trim c \<rparr>"
    if "JSON_parse qrData = Some (JObject kvs)"
      "map_of (rev kvs) (js ''name'') = Some (JString n)" "n \<noteq> []"
      "map_of (rev kvs) (js ''country'') = Some (JString c)" "c \<noteq> []" for kvs n c
    using jsonStrategy_name_country[OF that] by (simp add: p)
  have b: "parseQRContent qrData = Inr \<lparr> name = trim l @ js '', '' @ trim f, country = trim c \<rparr>"
    if "JSON_parse qrData = Some (JObject kvs)"
      "\<not> truthy (map_of (rev kvs) (js ''name''))"
      "map_of (rev kvs) (js ''lastName'') = Some (JString l)" "l \<noteq> []"
      "map_of (rev kvs) (js ''firstName'') = Some (JString f)" "f \<noteq> []"
      "map_of (rev kvs) (js ''country'') = Some (JString c)" "c \<noteq> []" for kvs l f c
    using jsonStrategy_lastName_firstName[OF that] by (simp add: p)
  have d: "parseQRContent qrData = Inr (lineStrategy qrData)"
    if "\<forall>i. jsonStrategy qrData \<noteq> Inr (Some i)"
    using that by (auto simp: p split: sum.splits option.splits)
  have c: "parseQRContent qrData = Inr (lineStrategy qrData)"
    if "JSON_parse qrData = None \<or> (\<exists>v. JSON_parse qrData = Some v \<and> (\<forall>kvs. v \<noteq> JObject kvs))"
  proof -
    from that show ?thesis
    proof
      assume "JSON_parse qrData = None"
      then have "jsonStrategy qrData = Inl SyntaxError" by (simp add: jsonStrategy_def)
      then show ?thesis by (simp add: p)
    next
      assume "\<exists>v. JSON_parse qrData = Some v \<and> (\<forall>kvs. v \<noteq> JObject kvs)"
      then obtain v where "JSON_parse qrData = Some v" "\<forall>kvs. v \<noteq> JObject kvs" by blast
      from jsonStrategy_not_object[OF this] show ?thesis by (auto simp: p)
    qed
  qed
  have e: "parseQRContent qrData = Inr (lineStrategy qrData)"
    if k: "JSON_parse qrData = Some (JObject kvs)"
      and n1: "\<not> (\<exists>n c. map_of (rev kvs) (js ''name'') = Some (JString n) \<and> n \<noteq> []
                       \<and> map_of (rev kvs) (js ''country'') = Some (JString c) \<and> c \<noteq> [])"
      and n2: "\<not> (\<not> truthy (map_of (rev kvs) (js ''name''))
                  \<and> (\<exists>l f c. map_of (rev kvs) (js ''lastName'') = Some (JString l) \<and> l \<noteq> []
                         \<and> map_of (rev kvs) (js ''firstName'') = Some (JString f) \<and> f \<noteq> []
                         \<and> map_of (rev kvs) (js ''country'') = Some (JString c) \<and> c \<noteq> []))"
    for kvs
  proof (rule d, intro allI notI)
    fix i assume "jsonStrategy qrData = Inr (Some i)"
    then obtain kvs' where k': "JSON_parse qrData = Some (JObject kvs')"
      and h: "(\<exists>n c. map_of (rev kvs') (js ''name'') = Some (JString n) \<and> n \<noteq> []
                \<and> map_of (rev kvs') (js ''country'') = Some (JString c) \<and> c \<noteq> []
                \<and> i = \<lparr> name = trim n, country = trim c \<rparr>)
           \<or> (\<not> truthy (map_of (rev kvs') (js ''name''))
               \<and> (\<exists>l f c. map_of (rev kvs') (js ''lastName'') = Some (JString l) \<and> l \<noteq> []
                    \<and> map_of (rev kvs') (js ''firstName'') = Some (JString f) \<and> f \<noteq> []
                    \<and> map_of (rev kvs') (js ''country'') = Some (JString c) \<and> c \<noteq> []
                    \<and> i = \<lparr> name = trim l @ js '', '' @ trim f, country = trim c \<rparr>))"
      unfolding jsonStrategy_returns_iff by blast
    from k k' have "kvs' = kvs" by simp
    with h n1 n2 show False by blast
  qed
  show ?thesis
  proof (intro conjI allI impI)
    fix kvs n c
    assume "JSON_parse qrData = Some (JObject kvs)
            \<and> map_of (rev kvs) (js ''name'') = Some (JString n) \<and> n \<noteq> []
            \<and> map_of (rev kvs) (js ''country'') = Some (JString c) \<and> c \<noteq> []"
    then show "parseQRContent qrData = Inr \<lparr> name = trim n, country = trim c \<rparr>"
      using a by blast
  next
    fix kvs l f c
    assume "JSON_parse qrData = Some (JObject kvs)
            \<and> \<not> truthy (map_of (rev kvs) (js ''name''))
            \<and> map_of (rev kvs) (js ''lastName'') = Some (JString l) \<and> l \<noteq> []
            \<and> map_of (rev kvs) (js ''firstName'') = Some (JString f) \<and> f \<noteq> []
            \<and> map_of (rev kvs) (js ''country'') = Some (JString c) \<and> c \<noteq> []"
    then show "parseQRContent qrData =
                 Inr \<lparr> name = trim l @ js '', '' @ trim f, country = trim c \<rparr>"
      using b by blast
  next
    assume "JSON_parse qrData = None
            \<or> (\<exists>v. JSON_parse qrData = Some v \<and> (\<forall>kvs. v \<noteq> JObject kvs))"
    then show "parseQRContent qrData = Inr (lineStrategy qrData)" by (rule c)
  next
    fix kvs
    assume "JSON_parse qrData = Some (JObject kvs)
            \<and> \<not> (\<exists>n c. map_of (rev kvs) (js ''name'') = Some (JString n) \<and> n \<noteq> []
                       \<and> map_of (rev kvs) (js ''country'') = Some (JString c) \<and> c \<noteq> [])
            \<and> \<not> (\<not> truthy (map_of (rev kvs) (js ''name''))
                  \<and> (\<exists>l f c. map_of (rev kvs) (js ''lastName'') = Some (JString l) \<and> l \<noteq> []
                         \<and> map_of (rev kvs) (js ''firstName'') = Some (JString f) \<and> f \<noteq> []
                         \<and> map_of (rev kvs) (js ''country'') = Some (JString c) \<and> c \<noteq> []))"
    then show "parseQRContent qrData = Inr (lineStrategy qrData)" using e by blast
  next
    show "jsonStrategy qrData = Inr (Some i) \<longleftrightarrow>
            (\<exists>kvs. JSON_parse qrData = Some (JObject kvs)
               \<and> ((\<exists>n c. map_of (rev kvs) (js ''name'') = Some (JString n) \<and> n \<noteq> []
                       \<and> map_of (rev kvs) (js ''country'') = Some (JString c) \<and> c \<noteq> []
                       \<and> i = \<lparr> name = trim n, country = trim c \<rparr>)
                  \<or> (\<not> truthy (map_of (rev kvs) (js ''name''))
                      \<and> (\<exists>l f c. map_of (rev kvs) (js ''lastName'') = Some (JString l) \<and> l \<noteq> []
                           \<and> map_of (rev kvs) (js ''firstName'') = Some (JString f) \<and> f \<noteq> []
                           \<and> map_of (rev kvs) (js ''country'') = Some (JString c) \<and> c \<noteq> []
                           \<and> i = \<lparr> name = trim l @ js '', '' @ trim f, country = trim c \<rparr>))))"
      by (rule jsonStrategy_returns_iff)
  next
    assume "\<forall>i. jsonStrategy qrData \<noteq> Inr (Some i)"
    then show "parseQRContent qrData = Inr (lineStrategy qrData)" by (rule d)
  qed
qed

theorem structured_form_witness:
  \<open>parseQRContent payloadNameCountry = Inr \<lparr> name = js ''Jane Roe'', country = js ''Canada'' \<rparr>
   \<and> parseQRContent payloadLastFirst = Inr \<lparr> name = js ''DOE, John'', country = js ''USA'' \<rparr>
   \<and> parseQRContent (js ''7'') = Inr (lineStrategy (js ''7''))
   \<and> parseQRContent payloadEmptyName = Inr (lineStrategy payloadEmptyName)\<close>
proof -
  have a: "match payloadNameCountry threePartRe = None" "match payloadNameCountry labeledRe = None"
    "match payloadNameCountry simpleRe = None"
    "JSON_parse payloadNameCountry =
       Some (JObject [(js ''name'', JString (js '' Jane Roe '')), (js ''country'', JString (js ''Canada''))])"
    "trim (js '' Jane Roe '') = js ''Jane Roe''" "trim (js ''Canada'') = js ''Canada''"
    by code_simp+
  have b: "match payloadLastFirst threePartRe = None" "match payloadLastFirst labeledRe = None"
    "match payloadLastFirst simpleRe = None"
    "JSON_parse payloadLastFirst =
       Some (JObject [(js ''lastName'', JString (js ''DOE'')), (js ''firstName'', JString (js ''John'')),
                      (js ''country'', JString (js ''USA''))])"
    "trim (js ''DOE'') = js ''DOE''" "trim (js ''John'') = js ''John''" "trim (js ''USA'') = js ''USA''"
    by code_simp+
  have c: "match (js ''7'') threePartRe = None" "match (js ''7'') labeledRe = None"
    "match (js ''7'') simpleRe = None" "JSON_parse (js ''7'') = Some (JNumber False 7 0)"
    by code_simp+
  have d: "match payloadEmptyName threePartRe = None" "match payloadEmptyName labeledRe = None"
    "match payloadEmptyName simpleRe = None"
    "JSON_parse payloadEmptyName =
       Some (JObject [(js ''name'', JString []), (js ''country'', JString (js ''X''))])"
    by code_simp+
  from structured_form[OF a(1-3)] a(4-) have 1:
    "parseQRContent payloadNameCountry = Inr \<lparr> name = js ''Jane Roe'', country = js ''Canada'' \<rparr>"
    by (simp add: js_def)
  from structured_form[OF b(1-3)] b(4-) have 2:
    "parseQRContent payloadLastFirst = Inr \<lparr> name = js ''DOE, John'', country = js ''USA'' \<rparr>"
    by (simp add: js_def)
  from structured_form[OF c(1-3)] c(4) have 3:
    "parseQRContent (js ''7'') = Inr (lineStrategy (js ''7''))"
    by simp
  from structured_form[OF d(1-3)] d(4) have 4:
    "parseQRContent payloadEmptyName = Inr (lineStrategy payloadEmptyName)"
    by (simp add: js_def)
  from 1 2 3 4 show ?thesis by simp
qed

text \<open>An object with the members \<open>name\<close> and \<open>country\<close>, the first of them the empty
  string: strategy 4 returns nothing and the two lines of the text become name and country.\<close>

theorem empty_name_field_counterexample:
  \<open>match payloadEmptyName threePartRe = None \<and> match payloadEmptyName labeledRe = None
   \<and> match payloadEmptyName simpleRe = None
   \<and> JSON_parse payloadEmptyName =
       Some (JObject [(js ''name'', JString []), (js ''country'', JString (js ''X''))])
   \<and> parseQRContent payloadEmptyName =
       Inr \<lparr> name = js ''{"name":"","country":'', country = js ''"X"}'' \<rparr>
   \<and> parseQRContent payloadEmptyName \<noteq> Inr \<lparr> name = trim [], country = trim (js ''X'') \<rparr>\<close>
  by code_simp

section \<open>Properties of the JSON automaton\<close>

lemma foldl_step_Failed: "foldl step Failed cs = Failed"
  by (induction cs) auto

lemma spelling_no_comma:
  "i < length (spelling kw) \<Longrightarrow> spelling kw ! i \<noteq> ch CHR '',''"
  "i < length (spelling kw) \<Longrightarrow> ch CHR '','' \<noteq> spelling kw ! i"
  by (cases kw; auto simp: js_def ch_def nth_Cons' less_Suc_eq)+

lemma num_step_comma: "num_step ph n (ch CHR '','') = None"
  by (cases ph) (auto simp: isDigit_def isE_def ch_def)

lemma finish_next_member: "finish (next_member fs) = None"
  by (cases fs rule: next_member.cases) auto

lemma comma_not_JSON_ws: "\<not> isJSONWhiteSpace (ch CHR '','')"
  by (simp add: isJSONWhiteSpace_def ch_def)

lemma finish_resume_comma: "finish (resume st (ch CHR '','')) = None"
proof (cases st)
  case (Parsing m fs)
  then show ?thesis
    by (cases m) (auto simp: finish_next_member comma_not_JSON_ws)
qed (auto simp: comma_not_JSON_ws)

lemma finish_step_comma: "finish (step st (ch CHR '','')) = None"
proof (cases st)
  case (Parsing m fs)
  show ?thesis
  proof (cases m)
    case (InNumber ph n)
    with Parsing show ?thesis by (simp add: num_step_comma finish_resume_comma)
  next
    case (Literal kw i)
    with Parsing show ?thesis using spelling_no_comma[of i kw] by auto
  next
    case After
    with Parsing show ?thesis using finish_resume_comma[of "Parsing After fs"] by simp
  qed (use Parsing in \<open>auto simp: comma_not_JSON_ws start_value_def unescape_def hexValue_def
        isDigit_def ch_def\<close>)
next
  case (Done v)
  then show ?thesis using finish_resume_comma[of "Done v"] by simp
next
  case Failed
  then show ?thesis by simp
qed

lemma JSON_parse_last:
  assumes "JSON_parse p = Some v"
  shows "p \<noteq> [] \<and> last p \<noteq> ch CHR '',''"
proof -
  from assms have ne: "p \<noteq> []" by (auto simp: JSON_parse_def)
  then obtain q c where q: "p = q @ [c]" by (cases p rule: rev_cases) auto
  have "c \<noteq> ch CHR '',''"
  proof
    assume "c = ch CHR '',''"
    with q have "JSON_parse p = finish (step (foldl step (Parsing Value []) q) (ch CHR '',''))"
      by (simp add: JSON_parse_def)
    with assms show False by (simp add: finish_step_comma)
  qed
  with q show ?thesis by simp
qed

lemma scalar_step: "topLevelScalar st \<Longrightarrow> topLevelScalar (step st c)"
  by (cases st rule: topLevelScalar.cases) (auto split: option.splits)

lemma scalar_comma: "topLevelScalar st \<Longrightarrow> step st (ch CHR '','') = Failed"
  by (cases st rule: topLevelScalar.cases)
     (auto simp: num_step_comma comma_not_JSON_ws spelling_no_comma)

lemma scalar_no_comma:
  "topLevelScalar st \<Longrightarrow> ch CHR '','' \<in> set cs \<Longrightarrow> foldl step st cs = Failed"
proof (induction cs arbitrary: st)
  case Nil
  then show ?case by simp
next
  case (Cons c cs)
  show ?case
  proof (cases "c = ch CHR '',''")
    case True
    with Cons.prems show ?thesis by (simp add: scalar_comma foldl_step_Failed)
  next
    case False
    with Cons.prems have "ch CHR '','' \<in> set cs" by auto
    with Cons.IH[OF scalar_step[OF Cons.prems(1)]] show ?thesis by simp
  qed
qed

lemma foldl_step_ws:
  "\<forall>x\<in>set w. isJSONWhiteSpace x \<Longrightarrow>
   foldl step (Parsing Value []) (w @ r) = foldl step (Parsing Value []) r"
  by (induction w) auto

lemma start_value_scalar: "\<not> isOpening c \<Longrightarrow> topLevelScalar (start_value c [])"
  by (auto simp: start_value_def isOpening_def)

lemma JSON_parse_comma_start:
  assumes "JSON_parse p = Some v" "ch CHR '','' \<in> set p"
  shows "\<exists>w c r. p = w @ c # r \<and> (\<forall>x\<in>set w. isJSONWhiteSpace x) \<and> isOpening c"
proof -
  define w where "w = takeWhile isJSONWhiteSpace p"
  define t where "t = dropWhile isJSONWhiteSpace p"
  have p: "p = w @ t" by (simp add: w_def t_def)
  have ws: "\<forall>x\<in>set w. isJSONWhiteSpace x" by (auto simp: w_def dest: set_takeWhileD)
  have "ch CHR '','' \<notin> set w" using ws comma_not_JSON_ws by blast
  with assms(2) p have ct: "ch CHR '','' \<in> set t" by auto
  then obtain c r where t: "t = c # r" by (cases t) auto
  have "dropWhile isJSONWhiteSpace p \<noteq> []" using t t_def by simp
  from hd_dropWhile[OF this] have nws: "\<not> isJSONWhiteSpace c" using t t_def by simp
  have "JSON_parse p = finish (foldl step (Parsing Value []) (c # r))"
    unfolding JSON_parse_def p t by (simp only: foldl_step_ws[OF ws])
  then have run: "JSON_parse p = finish (foldl step (start_value c []) r)"
    using nws by simp
  have "isOpening c"
  proof (rule ccontr)
    assume n: "\<not> isOpening c"
    have "c \<noteq> ch CHR '',''"
    proof
      assume "c = ch CHR '',''"
      then have "start_value c [] = Failed" by (simp add: start_value_def ch_def isDigit_def)
      with run assms(1) show False by (simp add: foldl_step_Failed)
    qed
    with ct t have "ch CHR '','' \<in> set r" by auto
    from scalar_no_comma[OF start_value_scalar[OF n] this] run assms(1) show False by simp
  qed
  with p t ws show ?thesis by blast
qed

section \<open>JSON texts and the comma strategies\<close>

lemma simple_SomeI:
  assumes "beforeComma s \<noteq> []" "dropWhile notComma s = ch CHR '','' # r" "r \<noteq> []"
    "\<forall>x\<in>set r. dot x"
  shows "match s simpleRe \<noteq> None"
proof -
  have tw: "takeWhile dot r = r" using assms(4) by (simp add: takeWhile_eq_all_conv)
  have d0: "re_match [] True (drop (length r) r) \<noteq> None" by simp
  have d1: "re_match [Piece dot Plus True] True r \<noteq> None"
    by (rule re_match_Cons_SomeI[where k = "length r", OF _ _ _ d0])
       (use assms(3) in \<open>simp_all add: tw Suc_le_eq\<close>)
  have d1': "re_match [Piece dot Plus True] True (drop 0 r) \<noteq> None"
    unfolding drop_0 by (rule d1)
  have d2: "re_match [Piece isWhiteSpace Star False, Piece dot Plus True] True r \<noteq> None"
    by (rule re_match_Cons_SomeI[where k = 0, OF _ _ _ d1']) simp_all
  have d3: "re_match [lit CHR '','', Piece isWhiteSpace Star False, Piece dot Plus True] True
               (ch CHR '','' # r) \<noteq> None"
    by (rule lit_SomeI[OF d2])
  have "drop (length (takeWhile notComma s)) s = ch CHR '','' # r"
    using assms(2) by (simp only: dropWhile_eq_drop[symmetric])
  then have d3': "re_match [lit CHR '','', Piece isWhiteSpace Star False, Piece dot Plus True] True
               (drop (length (takeWhile notComma s)) s) \<noteq> None"
    using d3 by (rule ssubst)
  have d4: "re_match [Piece notComma Plus True, lit CHR '','', Piece isWhiteSpace Star False,
                  Piece dot Plus True] True s \<noteq> None"
    by (rule re_match_Cons_SomeI[where k = "length (takeWhile notComma s)", OF _ _ _ d3'])
       (use assms(1) in \<open>simp_all add: beforeComma_def Suc_le_eq\<close>)
  have m: "match s simpleRe = re_match [Piece notComma Plus True, lit CHR '','',
             Piece isWhiteSpace Star False, Piece dot Plus True] True s"
    by (simp add: match_def simpleRe_def)
  show ?thesis unfolding m by (rule d4)
qed

lemma JSON_ws_isWhiteSpace: "isJSONWhiteSpace c \<Longrightarrow> isWhiteSpace c"
  by (auto simp: isJSONWhiteSpace_def isWhiteSpace_def isLineTerminator_def)

lemma isOpening_facts: "isOpening c \<Longrightarrow> \<not> isWhiteSpace c \<and> notComma c"
  by (auto simp: isOpening_def isWhiteSpace_def isLineTerminator_def notComma_def ch_def)

lemma trim_hd:
  assumes "\<forall>x\<in>set w. isWhiteSpace x" "\<not> isWhiteSpace c"
  shows "trim (w @ c # t) = c # rev (dropWhile isWhiteSpace (rev t))"
proof -
  have "trim (w @ c # t) = trim (c # t)" by (rule trim_ws_prefix[OF assms(1)])
  also have "\<dots> = rev (dropWhile isWhiteSpace (rev t @ [c]))"
    using assms(2) by (simp add: trim_def)
  also have "dropWhile isWhiteSpace (rev t @ [c]) = dropWhile isWhiteSpace (rev t) @ [c]"
    using assms(2) by (simp add: dropWhile_append3)
  finally show ?thesis by simp
qed

lemma json_comma_shape:
  assumes "JSON_parse p = Some v" "ch CHR '','' \<in> set p" "\<forall>c\<in>set p. \<not> isLineTerminator c"
  shows "match p simpleRe \<noteq> None"
    and "trim (beforeComma p) \<noteq> [] \<and> isOpening (hd (trim (beforeComma p)))"
proof -
  from JSON_parse_comma_start[OF assms(1,2)] obtain w c r where
    p: "p = w @ c # r" and w: "\<forall>x\<in>set w. isJSONWhiteSpace x" and c: "isOpening c"
    by blast
  have wnc: "\<And>x. x \<in> set w \<Longrightarrow> notComma x"
    using w JSON_ws_isWhiteSpace isWhiteSpace_notComma by blast
  have bc: "beforeComma p = w @ c # takeWhile notComma r"
    unfolding beforeComma_def p using isOpening_facts[OF c]
    by (simp add: takeWhile_append2[OF wnc])
  have "trim (beforeComma p) = c # rev (dropWhile isWhiteSpace (rev (takeWhile notComma r)))"
    unfolding bc using w JSON_ws_isWhiteSpace isOpening_facts[OF c]
    by (intro trim_hd) auto
  with c show "trim (beforeComma p) \<noteq> [] \<and> isOpening (hd (trim (beforeComma p)))" by simp
  from assms(2) have "dropWhile notComma p \<noteq> []"
    by (auto simp: dropWhile_eq_Nil_conv notComma_def)
  moreover from hd_dropWhile[OF this] have "hd (dropWhile notComma p) = ch CHR '',''"
    by (simp add: notComma_def)
  ultimately obtain t where t: "dropWhile notComma p = ch CHR '','' # t"
    by (cases "dropWhile notComma p") auto
  have pt: "p = takeWhile notComma p @ ch CHR '','' # t"
    using t by (metis takeWhile_dropWhile_id)
  have "t \<noteq> []"
  proof
    assume "t = []"
    with pt have "p = takeWhile notComma p @ [ch CHR '','']" by simp
    then have "last p = ch CHR '',''" by (metis last_snoc)
    with JSON_parse_last[OF assms(1)] show False by simp
  qed
  moreover have "\<forall>x\<in>set t. dot x"
  proof
    fix x assume "x \<in> set t"
    then have "x \<in> set p" using pt by (metis in_set_conv_decomp append.assoc append_Cons set_dropWhileD t list.set_intros(2))
    with assms(3) show "dot x" by (simp add: dot_def)
  qed
  ultimately show "match p simpleRe \<noteq> None"
    using bc t by (intro simple_SomeI[where r = t]) auto
qed

text \<open>
  Claim C5, as the code has it. Let a payload be well-formed JSON text, hold a comma and hold
  no line terminator (LF, CR, U+2028, U+2029). Then the two-part pattern of strategy 3 matches
  it, so \<open>parseQRContent\<close> returns from one of the strategies 1 to 3 and strategy 4 is
  never reached: the result is cut from the raw text at its first commas (strategy 1 or 3) or
  after the labels (strategy 2). When strategy 1 or strategy 3 returns, the name starts with
  the brace, bracket or quote that opens the JSON text.
\<close>

theorem json_text_with_comma:
  assumes "JSON_parse qrData \<noteq> None" "ch CHR '','' \<in> set qrData"
    "\<forall>c\<in>set qrData. \<not> isLineTerminator c"
  shows "match qrData simpleRe \<noteq> None
       \<and> parseQRContent qrData =
           Inr (if match qrData threePartRe \<noteq> None then
                  \<lparr> name = trim (beforeComma qrData) @ js '', ''
                             @ trim (beforeComma (afterComma qrData)),
                    country = trim (afterComma (afterComma qrData)) \<rparr>
                else case match qrData labeledRe of
                  Some m \<Rightarrow> \<lparr> name = trim (group m 1), country = trim (group m 2) \<rparr>
                | None \<Rightarrow> \<lparr> name = trim (beforeComma qrData),
                             country = trim (afterComma qrData) \<rparr>)
       \<and> (match qrData threePartRe \<noteq> None \<or> match qrData labeledRe = None \<longrightarrow>
            (\<exists>i. parseQRContent qrData = Inr i \<and> name i \<noteq> [] \<and> isOpening (hd (name i))))"
proof -
  from assms(1) obtain v where v: "JSON_parse qrData = Some v" by auto
  note sh = json_comma_shape[OF v assms(2,3)]
  from sh(1) obtain m3 where m3: "match qrData simpleRe = Some m3" by auto
  from simple_SomeD[OF m3] obtain g2 where
    g: "m3 = [beforeComma qrData, g2]" "trim g2 = trim (afterComma qrData)" by auto
  show ?thesis
  proof (cases "match qrData threePartRe")
    case (Some m1)
    then have "match qrData threePartRe \<noteq> None" by simp
    from threePart_result[OF this] Some sh show ?thesis by simp
  next
    case None
    show ?thesis
    proof (cases "match qrData labeledRe")
      case (Some m2)
      with None sh(1) show ?thesis by (simp add: parseQRContent_def)
    next
      case n2: None
      have "parseQRContent qrData =
              Inr \<lparr> name = trim (beforeComma qrData), country = trim (afterComma qrData) \<rparr>"
        using None n2 m3 g by (simp add: parseQRContent_def match_groups_eval)
      with None n2 sh show ?thesis by simp
    qed
  qed
qed

theorem json_text_with_comma_witness:
  \<open>parseQRContent payloadReadmeJson =
     Inr \<lparr> name = js ''{"lastName": "DOE", "firstName": "John"'', country = js ''"country": "USA"}'' \<rparr>\<close>
proof -
  have h: "JSON_parse payloadReadmeJson \<noteq> None" "ch CHR '','' \<in> set payloadReadmeJson"
    "\<forall>c\<in>set payloadReadmeJson. \<not> isLineTerminator c"
    "match payloadReadmeJson threePartRe \<noteq> None"
    by code_simp+
  have e: \<open>trim (beforeComma payloadReadmeJson) = js ''{"lastName": "DOE"''\<close>
    \<open>trim (beforeComma (afterComma payloadReadmeJson)) = js ''"firstName": "John"''\<close>
    \<open>trim (afterComma (afterComma payloadReadmeJson)) = js ''"country": "USA"}''\<close>
    by code_simp+
  from json_text_with_comma[OF h(1-3)] h(4) show ?thesis
    by (simp add: e) (simp add: js_def)
qed

text \<open>A JSON object whose only string holds the labels of strategy 2: the name that
  strategy 2 returns does not start with JSON punctuation.\<close>

theorem label_inside_json_counterexample:
  \<open>JSON_parse payloadLabelInside = Some (JObject [(js ''x'', JString (js ''Name: A, Country: B''))])
   \<and> ch CHR '','' \<in> set payloadLabelInside
   \<and> filter isLineTerminator payloadLabelInside = []
   \<and> parseQRContent payloadLabelInside = Inr \<lparr> name = js ''A'', country = js ''B"}'' \<rparr>
   \<and> \<not> isOpening (hd (js ''A''))\<close>
  by code_simp

section \<open>The deduplication policy and the session state\<close>

lemma foldl_populate:
  "foldl (\<lambda>codes r. if raw_qr_data r \<noteq> [] then insert (raw_qr_data r) codes else codes) A records
   = A \<union> (raw_qr_data ` set records - {[]})"
  by (induction records arbitrary: A) auto

lemma populate_codes:
  "scannedQRCodes (populateScannedQRCodes records s) = seenSetOf records"
  by (simp add: populateScannedQRCodes_def foldl_populate seenSetOf_def)

lemma populate_other:
  "localStorage (populateScannedQRCodes records s) = localStorage s"
  "lastScannedCode (populateScannedQRCodes records s) = lastScannedCode s"
  "lastScanTime (populateScannedQRCodes records s) = lastScanTime s"
  "scanCooldown (populateScannedQRCodes records s) = scanCooldown s"
  "scanning (populateScannedQRCodes records s) = scanning s"
  "useLocalStorage (populateScannedQRCodes records s) = useLocalStorage s"
  by (simp_all add: populateScannedQRCodes_def)

lemma loadLocal_codes:
  "scannedQRCodes (loadFromLocalStorage s) = seenSetOf (localStorage s)"
  by (simp add: loadFromLocalStorage_def getLocalStorageRecords_def populate_codes)

lemma loadLocal_other:
  "localStorage (loadFromLocalStorage s) = localStorage s"
  "lastScannedCode (loadFromLocalStorage s) = lastScannedCode s"
  "lastScanTime (loadFromLocalStorage s) = lastScanTime s"
  "scanCooldown (loadFromLocalStorage s) = scanCooldown s"
  "scanning (loadFromLocalStorage s) = scanning s"
  "useLocalStorage (loadFromLocalStorage s) = useLocalStorage s"
  by (simp_all add: loadFromLocalStorage_def populate_other)

lemma load_local: "useLocalStorage s \<Longrightarrow> loadAttendanceRecords s = ([], loadFromLocalStorage s)"
  by (simp add: loadAttendanceRecords_def)

lemma load_remote:
  "\<not> useLocalStorage s \<Longrightarrow> loadAttendanceRecords s = ([Fetch (GetRecords 100)], s)"
  by (simp add: loadAttendanceRecords_def)

lemma load_other:
  "localStorage (snd (loadAttendanceRecords s)) = localStorage s"
  "lastScannedCode (snd (loadAttendanceRecords s)) = lastScannedCode s"
  "lastScanTime (snd (loadAttendanceRecords s)) = lastScanTime s"
  "scanCooldown (snd (loadAttendanceRecords s)) = scanCooldown s"
  "scanning (snd (loadAttendanceRecords s)) = scanning s"
  "useLocalStorage (snd (loadAttendanceRecords s)) = useLocalStorage s"
  by (simp_all add: loadAttendanceRecords_def loadLocal_other)

lemma settled_codes:
  "scannedQRCodes (loadAttendanceRecords_settled (Succeeded records) s) = seenSetOf records"
  "scannedQRCodes (loadAttendanceRecords_settled Unavailable s) = seenSetOf (localStorage s)"
  by (simp_all add: loadAttendanceRecords_settled_def populate_codes loadLocal_codes loadLocal_other)

lemma settled_other:
  "localStorage (loadAttendanceRecords_settled response s) = localStorage s"
  "lastScannedCode (loadAttendanceRecords_settled response s) = lastScannedCode s"
  "lastScanTime (loadAttendanceRecords_settled response s) = lastScanTime s"
  "scanCooldown (loadAttendanceRecords_settled response s) = scanCooldown s"
  "scanning (loadAttendanceRecords_settled response s) = scanning s"
  by (simp_all add: loadAttendanceRecords_settled_def populate_other loadLocal_other
        split: reply.splits)

lemma settled_flag:
  "useLocalStorage (loadAttendanceRecords_settled (Succeeded records) s) = useLocalStorage s"
  "useLocalStorage (loadAttendanceRecords_settled Unavailable s)"
  by (simp_all add: loadAttendanceRecords_settled_def populate_other loadLocal_other)


lemma constructor_facts:
  "scanCooldown (constructor stored) = 2000"
  "scannedQRCodes (constructor stored) = {}"
  "\<not> useLocalStorage (constructor stored)"
  "localStorage (constructor stored) = stored"
  "lastScannedCode (constructor stored) = None"
  by (simp_all add: constructor_def loadAttendanceRecords_def)

lemma parseQRContent_Inr: "\<exists>i. parseQRContent qrData = Inr i"
  by (auto simp: parseQRContent_def split: option.splits sum.splits)

lemma parseQRContent_empty: "parseQRContent [] = Inr \<lparr> name = [], country = [] \<rparr>"
  by code_simp

lemma validPayload_nonempty: "validPayload qrData \<Longrightarrow> qrData \<noteq> []"
  by (auto simp: validPayload_def parseQRContent_empty)

lemma saveLocally_written:
  "useLocalStorage s \<Longrightarrow>
   saveLocally attendanceData True s = ([], loadFromLocalStorage (saveToLocalStorage attendanceData s))"
  by (simp add: saveLocally_def loadAttendanceRecords_def saveToLocalStorage_def)

lemma save_remote:
  "\<not> useLocalStorage s \<Longrightarrow>
   saveAttendance nm ctry rawData fr s = ([Fetch (PostRecord (newAttendance nm ctry rawData fr))], s)"
  by (simp add: saveAttendance_def)

lemma save_local:
  "useLocalStorage s \<Longrightarrow> writeSucceeds fr \<Longrightarrow>
   saveAttendance nm ctry rawData fr s =
     ([], loadFromLocalStorage (saveToLocalStorage (newAttendance nm ctry rawData fr) s))"
  by (simp add: saveAttendance_def saveLocally_written)

lemma save_failed:
  "useLocalStorage s \<Longrightarrow> \<not> writeSucceeds fr \<Longrightarrow>
   saveAttendance nm ctry rawData fr s = ([SaveFailed], s)"
  by (simp add: saveAttendance_def saveLocally_def)

lemma save_cases:
  "snd (saveAttendance nm ctry rawData fr s) = s
   \<or> useLocalStorage s \<and> writeSucceeds fr
     \<and> snd (saveAttendance nm ctry rawData fr s)
         = loadFromLocalStorage (saveToLocalStorage (newAttendance nm ctry rawData fr) s)"
  using save_remote[of s nm ctry rawData fr] save_local[of s fr nm ctry rawData]
    save_failed[of s fr nm ctry rawData]
  by (cases "useLocalStorage s"; cases "writeSucceeds fr") simp_all

lemma saved_storage:
  "localStorage (loadFromLocalStorage (saveToLocalStorage r s)) = localStorage s @ [r]"
  by (simp add: loadLocal_other saveToLocalStorage_def getLocalStorageRecords_def)

lemma saved_codes:
  "scannedQRCodes (loadFromLocalStorage (saveToLocalStorage r s)) = seenSetOf (localStorage s @ [r])"
  by (simp add: loadLocal_codes saveToLocalStorage_def getLocalStorageRecords_def)

lemma saved_other:
  "lastScannedCode (loadFromLocalStorage (saveToLocalStorage r s)) = lastScannedCode s"
  "lastScanTime (loadFromLocalStorage (saveToLocalStorage r s)) = lastScanTime s"
  "scanCooldown (loadFromLocalStorage (saveToLocalStorage r s)) = scanCooldown s"
  "scanning (loadFromLocalStorage (saveToLocalStorage r s)) = scanning s"
  "useLocalStorage (loadFromLocalStorage (saveToLocalStorage r s)) = useLocalStorage s"
  by (simp_all add: loadLocal_other saveToLocalStorage_def)

lemma save_other:
  "lastScannedCode (snd (saveAttendance nm ctry rawData fr s)) = lastScannedCode s"
  "lastScanTime (snd (saveAttendance nm ctry rawData fr s)) = lastScanTime s"
  "scanCooldown (snd (saveAttendance nm ctry rawData fr s)) = scanCooldown s"
  "scanning (snd (saveAttendance nm ctry rawData fr s)) = scanning s"
  "useLocalStorage (snd (saveAttendance nm ctry rawData fr s)) = useLocalStorage s"
  using save_cases[of nm ctry rawData fr s] by (auto simp: saved_other)

lemma save_member:
  assumes "rawData \<noteq> []" "rawData \<in> scannedQRCodes s"
  shows "rawData \<in> scannedQRCodes (snd (saveAttendance nm ctry rawData fr s))"
  using save_cases[of nm ctry rawData fr s] assms
  by (auto simp: saved_codes seenSetOf_def newAttendance_def)

lemma process_valid:
  assumes "validPayload qrData"
  shows "\<exists>parsedData. parseQRContent qrData = Inr parsedData
           \<and> processQRData fr qrData s =
               ([ShowScanSuccess]
                @ fst (saveAttendance (name parsedData) (country parsedData) qrData fr
                         (s\<lparr>scannedQRCodes := insert qrData (scannedQRCodes s)\<rparr>))
                @ [DisplayScanResult parsedData],
                snd (saveAttendance (name parsedData) (country parsedData) qrData fr
                       (s\<lparr>scannedQRCodes := insert qrData (scannedQRCodes s)\<rparr>)))"
  using assms
  by (auto simp: validPayload_def processQRData_def Let_def split: sum.splits prod.splits)

lemma process_invalid:
  assumes "\<not> validPayload qrData"
  shows "processQRData fr qrData s = ([invalidFormat], s)"
  using assms parseQRContent_Inr[of qrData]
  by (auto simp: validPayload_def processQRData_def Let_def split: sum.splits)

lemma decide_cases:
  "decide p now lp la seen cd = SUPPRESS_COOLDOWN \<longleftrightarrow> (lp = Some p \<and> now - la < cd)"
  "decide p now lp la seen cd = REJECT_DUPLICATE \<longleftrightarrow> (\<not> (lp = Some p \<and> now - la < cd) \<and> p \<in> seen)"
  "decide p now lp la seen cd = ACCEPT \<longleftrightarrow> (\<not> (lp = Some p \<and> now - la < cd) \<and> p \<notin> seen)"
  by (auto simp: decide_def)

lemma handle_suppress:
  assumes "decide qrData now (lastScannedCode s) (lastScanTime s) (scannedQRCodes s) (scanCooldown s)
           = SUPPRESS_COOLDOWN"
  shows "handleQRDetected now fr qrData s = ([], s)"
  using assms by (simp add: decide_cases handleQRDetected_def)

lemma handle_reject:
  assumes "decide qrData now (lastScannedCode s) (lastScanTime s) (scannedQRCodes s) (scanCooldown s)
           = REJECT_DUPLICATE"
  shows "handleQRDetected now fr qrData s = ([duplicateError], s)"
  using assms by (auto simp: decide_cases handleQRDetected_def)

lemma handle_accept:
  assumes "decide qrData now (lastScannedCode s) (lastScanTime s) (scannedQRCodes s) (scanCooldown s)
           = ACCEPT"
  shows "handleQRDetected now fr qrData s =
          (fst (processQRData fr qrData
                  (s\<lparr>scanning := False, lastScannedCode := Some qrData, lastScanTime := now\<rparr>))
           @ [ResumeScanningAfter 1000],
           snd (processQRData fr qrData
                  (s\<lparr>scanning := False, lastScannedCode := Some qrData, lastScanTime := now\<rparr>)))"
  using assms by (auto simp: decide_cases handleQRDetected_def Let_def split: prod.splits)

lemma handle_accept_valid:
  assumes "decide qrData now (lastScannedCode s) (lastScanTime s) (scannedQRCodes s) (scanCooldown s)
           = ACCEPT" "validPayload qrData"
  shows "\<exists>parsedData. parseQRContent qrData = Inr parsedData
           \<and> handleQRDetected now fr qrData s =
               ([ShowScanSuccess]
                @ fst (saveAttendance (name parsedData) (country parsedData) qrData fr
                  (s\<lparr>scanning := False, lastScannedCode := Some qrData, lastScanTime := now,
                     scannedQRCodes := insert qrData (scannedQRCodes s)\<rparr>))
                @ [DisplayScanResult parsedData, ResumeScanningAfter 1000],
                snd (saveAttendance (name parsedData) (country parsedData) qrData fr
                  (s\<lparr>scanning := False, lastScannedCode := Some qrData, lastScanTime := now,
                     scannedQRCodes := insert qrData (scannedQRCodes s)\<rparr>)))"
proof -
  let ?s1 = "s\<lparr>scanning := False, lastScannedCode := Some qrData, lastScanTime := now\<rparr>"
  from process_valid[OF assms(2), of fr ?s1] obtain parsedData where
    p: "parseQRContent qrData = Inr parsedData"
       "processQRData fr qrData ?s1 =
               ([ShowScanSuccess]
                @ fst (saveAttendance (name parsedData) (country parsedData) qrData fr
                         (?s1\<lparr>scannedQRCodes := insert qrData (scannedQRCodes ?s1)\<rparr>))
                @ [DisplayScanResult parsedData],
                snd (saveAttendance (name parsedData) (country parsedData) qrData fr
                       (?s1\<lparr>scannedQRCodes := insert qrData (scannedQRCodes ?s1)\<rparr>)))"
    by blast
  from handle_accept[OF assms(1), of fr] p show ?thesis by simp
qed

lemma handle_accept_invalid:
  assumes "decide qrData now (lastScannedCode s) (lastScanTime s) (scannedQRCodes s) (scanCooldown s)
           = ACCEPT" "\<not> validPayload qrData"
  shows "handleQRDetected now fr qrData s =
           ([invalidFormat, ResumeScanningAfter 1000],
            s\<lparr>scanning := False, lastScannedCode := Some qrData, lastScanTime := now\<rparr>)"
  using handle_accept[OF assms(1), of fr] assms(2) by (simp add: process_invalid)

text \<open>
  Claim C1, as the code has it. The two tests at the head of \<open>handleQRDetected\<close> are the
  rules of \<open>decide\<close>, in this order: the same payload as the last one within the cooldown
  is suppressed, with no effect and no change of state, also when the payload is in the set;
  otherwise a payload in the set is rejected with the duplicate error and no change of state;
  otherwise the payload is accepted, the last payload and its time are updated, and the
  payload is in the set afterwards when its parse succeeds, while the set is unchanged when
  the parse fails. The cooldown is 2000 milliseconds from the constructor on.
\<close>

theorem deduplication_policy:
  "decide qrData now (lastScannedCode s) (lastScanTime s) (scannedQRCodes s) (scanCooldown s) =
     (if lastScannedCode s = Some qrData \<and> now - lastScanTime s < scanCooldown s
      then SUPPRESS_COOLDOWN
      else if qrData \<in> scannedQRCodes s then REJECT_DUPLICATE else ACCEPT)
   \<and> (decide qrData now (lastScannedCode s) (lastScanTime s) (scannedQRCodes s) (scanCooldown s)
        = SUPPRESS_COOLDOWN \<longrightarrow> handleQRDetected now fr qrData s = ([], s))
   \<and> (decide qrData now (lastScannedCode s) (lastScanTime s) (scannedQRCodes s) (scanCooldown s)
        = REJECT_DUPLICATE \<longrightarrow> handleQRDetected now fr qrData s = ([duplicateError], s))
   \<and> (decide qrData now (lastScannedCode s) (lastScanTime s) (scannedQRCodes s) (scanCooldown s)
        = ACCEPT \<longrightarrow>
          lastScannedCode (snd (handleQRDetected now fr qrData s)) = Some qrData
        \<and> lastScanTime (snd (handleQRDetected now fr qrData s)) = now
        \<and> (validPayload qrData \<longrightarrow> qrData \<in> scannedQRCodes (snd (handleQRDetected now fr qrData s)))
        \<and> (\<not> validPayload qrData \<longrightarrow>
              scannedQRCodes (snd (handleQRDetected now fr qrData s)) = scannedQRCodes s))
   \<and> scanCooldown (snd (handleQRDetected now fr qrData s)) = scanCooldown s
   \<and> scanCooldown (constructor stored) = 2000"
proof -
  let ?d = "decide qrData now (lastScannedCode s) (lastScanTime s) (scannedQRCodes s) (scanCooldown s)"
  have a: "lastScannedCode (snd (handleQRDetected now fr qrData s)) = Some qrData
        \<and> lastScanTime (snd (handleQRDetected now fr qrData s)) = now
        \<and> (validPayload qrData \<longrightarrow> qrData \<in> scannedQRCodes (snd (handleQRDetected now fr qrData s)))
        \<and> (\<not> validPayload qrData \<longrightarrow>
              scannedQRCodes (snd (handleQRDetected now fr qrData s)) = scannedQRCodes s)"
    if acc: "?d = ACCEPT"
  proof (cases "validPayload qrData")
    case True
    from handle_accept_valid[OF acc True, of fr] validPayload_nonempty[OF True] True
    show ?thesis by (auto simp: save_other intro!: save_member)
  next
    case False
    from handle_accept_invalid[OF acc False, of fr] False show ?thesis by simp
  qed
  have c: "scanCooldown (snd (handleQRDetected now fr qrData s)) = scanCooldown s"
  proof (cases ?d)
    case ACCEPT
    show ?thesis
    proof (cases "validPayload qrData")
      case True
      from handle_accept_valid[OF ACCEPT True, of fr] show ?thesis by (auto simp: save_other)
    next
      case False
      from handle_accept_invalid[OF ACCEPT False, of fr] show ?thesis by simp
    qed
  next
    case SUPPRESS_COOLDOWN
    from handle_suppress[OF this] show ?thesis by simp
  next
    case REJECT_DUPLICATE
    from handle_reject[OF this] show ?thesis by simp
  qed
  have k: "scanCooldown (constructor stored) = 2000"
    by (rule constructor_facts(1))
  have d: "?d = (if lastScannedCode s = Some qrData \<and> now - lastScanTime s < scanCooldown s
      then SUPPRESS_COOLDOWN
      else if qrData \<in> scannedQRCodes s then REJECT_DUPLICATE else ACCEPT)"
    by (simp only: decide_def)
  have s1: "?d = SUPPRESS_COOLDOWN \<longrightarrow> handleQRDetected now fr qrData s = ([], s)"
    using handle_suppress by blast
  have s2: "?d = REJECT_DUPLICATE \<longrightarrow> handleQRDetected now fr qrData s = ([duplicateError], s)"
    using handle_reject by blast
  have s3: "?d = ACCEPT \<longrightarrow>
          lastScannedCode (snd (handleQRDetected now fr qrData s)) = Some qrData
        \<and> lastScanTime (snd (handleQRDetected now fr qrData s)) = now
        \<and> (validPayload qrData \<longrightarrow> qrData \<in> scannedQRCodes (snd (handleQRDetected now fr qrData s)))
        \<and> (\<not> validPayload qrData \<longrightarrow>
              scannedQRCodes (snd (handleQRDetected now fr qrData s)) = scannedQRCodes s)"
    using a by blast
  show ?thesis
    by (rule conjI[OF d conjI[OF s1 conjI[OF s2 conjI[OF s3 conjI[OF c k]]]]])
qed

theorem deduplication_policy_witness:
  "handleQRDetected 10000 freshA (js ''DOE, John, USA'') offline
     = ([ShowScanSuccess, DisplayScanResult \<lparr> name = js ''DOE, John'', country = js ''USA'' \<rparr>,
         ResumeScanningAfter 1000], scannedOnce)
   \<and> js ''DOE, John, USA'' \<in> scannedQRCodes scannedOnce
   \<and> lastScannedCode scannedOnce = Some (js ''DOE, John, USA'')
   \<and> lastScanTime scannedOnce = 10000
   \<and> handleQRDetected 10500 freshB (js ''DOE, John, USA'') scannedOnce = ([], scannedOnce)
   \<and> handleQRDetected 20000 freshB (js ''DOE, John, USA'') scannedOnce
       = ([duplicateError], scannedOnce)"
proof -
  have d: "decide (js ''DOE, John, USA'') 10000 (lastScannedCode offline)
             (lastScanTime offline) (scannedQRCodes offline)
             (scanCooldown offline) = ACCEPT"
    "validPayload (js ''DOE, John, USA'')"
    by code_simp+
  have e: "handleQRDetected 10000 freshA (js ''DOE, John, USA'') offline
     = ([ShowScanSuccess, DisplayScanResult \<lparr> name = js ''DOE, John'', country = js ''USA'' \<rparr>,
         ResumeScanningAfter 1000], scannedOnce)"
    by code_simp
  have f: "decide (js ''DOE, John, USA'') 10500 (lastScannedCode scannedOnce)
             (lastScanTime scannedOnce) (scannedQRCodes scannedOnce)
             (scanCooldown scannedOnce) = SUPPRESS_COOLDOWN"
    "decide (js ''DOE, John, USA'') 20000 (lastScannedCode scannedOnce)
             (lastScanTime scannedOnce) (scannedQRCodes scannedOnce)
             (scanCooldown scannedOnce) = REJECT_DUPLICATE"
    by code_simp+
  note 1 = deduplication_policy[of "js ''DOE, John, USA''" 10000 offline freshA]
  note 2 = deduplication_policy[of "js ''DOE, John, USA''" 10500 scannedOnce freshB]
  note 3 = deduplication_policy[of "js ''DOE, John, USA''" 20000 scannedOnce freshB]
  from 1 d have "lastScannedCode (snd (handleQRDetected 10000 freshA (js ''DOE, John, USA'') offline))
                   = Some (js ''DOE, John, USA'')
     \<and> lastScanTime (snd (handleQRDetected 10000 freshA (js ''DOE, John, USA'') offline)) = 10000
     \<and> js ''DOE, John, USA'' \<in> scannedQRCodes (snd (handleQRDetected 10000 freshA (js ''DOE, John, USA'') offline))"
    by blast
  then have a: "lastScannedCode scannedOnce = Some (js ''DOE, John, USA'')
     \<and> lastScanTime scannedOnce = 10000 \<and> js ''DOE, John, USA'' \<in> scannedQRCodes scannedOnce"
    by (simp only: scannedOnce_def)
  from 2 f(1) have b: "handleQRDetected 10500 freshB (js ''DOE, John, USA'') scannedOnce = ([], scannedOnce)"
    by blast
  from 3 f(2) have c: "handleQRDetected 20000 freshB (js ''DOE, John, USA'') scannedOnce
       = ([duplicateError], scannedOnce)"
    by blast
  from a b c e show ?thesis by blast
qed

text \<open>An accepted payload that no strategy parses is not added to the set.\<close>

theorem accept_without_record_counterexample:
  "decide (js ''hello'') 10000 (lastScannedCode (constructor [])) (lastScanTime (constructor []))
     (scannedQRCodes (constructor [])) (scanCooldown (constructor [])) = ACCEPT
   \<and> js ''hello'' \<notin> scannedQRCodes (snd (handleQRDetected 10000 freshA (js ''hello'') (constructor [])))
   \<and> lastScannedCode (snd (handleQRDetected 10000 freshA (js ''hello'') (constructor [])))
       = Some (js ''hello'')"
  by code_simp




lemma deleteLocally_facts:
  assumes "useLocalStorage s"
  shows "fst (deleteLocally recordId True s) = []"
    "localStorage (snd (deleteLocally recordId True s))
       = filter (\<lambda>r. id' r \<noteq> recordId) (localStorage s)"
    "scannedQRCodes (snd (deleteLocally recordId True s))
       = seenSetOf (filter (\<lambda>r. id' r \<noteq> recordId) (localStorage s))"
    "lastScannedCode (snd (deleteLocally recordId True s)) = lastScannedCode s"
    "lastScanTime (snd (deleteLocally recordId True s)) = lastScanTime s"
    "scanCooldown (snd (deleteLocally recordId True s)) = scanCooldown s"
    "useLocalStorage (snd (deleteLocally recordId True s))"
  using assms
  by (simp_all add: deleteLocally_def Let_def getLocalStorageRecords_def load_local
        loadLocal_codes loadLocal_other split: option.splits)



lemma delete_local:
  "useLocalStorage s \<Longrightarrow> deleteRecord recordId True written s = deleteLocally recordId written s"
  by (simp add: deleteRecord_def)

lemma delete_remote:
  "\<not> useLocalStorage s \<Longrightarrow> deleteRecord recordId True written s = ([Fetch (DeleteById recordId)], s)"
  by (simp add: deleteRecord_def)

lemma delete_settled:
  "deleteRecord_settled recordId written (Succeeded deleted) s = loadAttendanceRecords s"
  "deleteRecord_settled recordId written Unavailable s
     = deleteLocally recordId written (s\<lparr>useLocalStorage := True\<rparr>)"
  by (simp_all add: deleteRecord_settled_def)














lemma handle_local_written:
  assumes "decide qrData now (lastScannedCode s) (lastScanTime s) (scannedQRCodes s) (scanCooldown s)
           = ACCEPT" "validPayload qrData" "useLocalStorage s" "writeSucceeds fr"
  shows "\<exists>parsedData. parseQRContent qrData = Inr parsedData
           \<and> handleQRDetected now fr qrData s =
               ([ShowScanSuccess, DisplayScanResult parsedData, ResumeScanningAfter 1000],
                loadFromLocalStorage
                  (saveToLocalStorage (newAttendance (name parsedData) (country parsedData) qrData fr)
                    (s\<lparr>scanning := False, lastScannedCode := Some qrData, lastScanTime := now,
                       scannedQRCodes := insert qrData (scannedQRCodes s)\<rparr>)))"
proof -
  from handle_accept_valid[OF assms(1,2), of fr] obtain parsedData where
    p: "parseQRContent qrData = Inr parsedData"
    and h: "handleQRDetected now fr qrData s =
               ([ShowScanSuccess]
                @ fst (saveAttendance (name parsedData) (country parsedData) qrData fr
                  (s\<lparr>scanning := False, lastScannedCode := Some qrData, lastScanTime := now,
                     scannedQRCodes := insert qrData (scannedQRCodes s)\<rparr>))
                @ [DisplayScanResult parsedData, ResumeScanningAfter 1000],
                snd (saveAttendance (name parsedData) (country parsedData) qrData fr
                  (s\<lparr>scanning := False, lastScannedCode := Some qrData, lastScanTime := now,
                     scannedQRCodes := insert qrData (scannedQRCodes s)\<rparr>)))"
    by blast
  have "useLocalStorage (s\<lparr>scanning := False, lastScannedCode := Some qrData, lastScanTime := now,
                     scannedQRCodes := insert qrData (scannedQRCodes s)\<rparr>)"
    using assms(3) by simp
  from save_local[OF this assms(4)] p h show ?thesis by simp
qed


lemma handle_remote:
  assumes "decide qrData now (lastScannedCode s) (lastScanTime s) (scannedQRCodes s) (scanCooldown s)
           = ACCEPT" "validPayload qrData" "\<not> useLocalStorage s"
  shows "\<exists>parsedData. parseQRContent qrData = Inr parsedData
           \<and> handleQRDetected now fr qrData s =
               ([ShowScanSuccess,
                 Fetch (PostRecord (newAttendance (name parsedData) (country parsedData) qrData fr)),
                 DisplayScanResult parsedData, ResumeScanningAfter 1000],
                s\<lparr>scanning := False, lastScannedCode := Some qrData, lastScanTime := now,
                   scannedQRCodes := insert qrData (scannedQRCodes s)\<rparr>)"
proof -
  from handle_accept_valid[OF assms(1,2), of fr] obtain parsedData where
    p: "parseQRContent qrData = Inr parsedData"
    and h: "handleQRDetected now fr qrData s =
               ([ShowScanSuccess]
                @ fst (saveAttendance (name parsedData) (country parsedData) qrData fr
                  (s\<lparr>scanning := False, lastScannedCode := Some qrData, lastScanTime := now,
                     scannedQRCodes := insert qrData (scannedQRCodes s)\<rparr>))
                @ [DisplayScanResult parsedData, ResumeScanningAfter 1000],
                snd (saveAttendance (name parsedData) (country parsedData) qrData fr
                  (s\<lparr>scanning := False, lastScannedCode := Some qrData, lastScanTime := now,
                     scannedQRCodes := insert qrData (scannedQRCodes s)\<rparr>)))"
    by blast
  have "\<not> useLocalStorage (s\<lparr>scanning := False, lastScannedCode := Some qrData, lastScanTime := now,
                     scannedQRCodes := insert qrData (scannedQRCodes s)\<rparr>)"
    using assms(3) by simp
  from save_remote[OF this] p h show ?thesis by simp
qed




text \<open>
  Claim C9, as the code has it. An accepted payload that parses is in the set. With local
  storage as the collection, the write succeeding and no other record carrying the payload, a
  record with the generated id is created; after the deletion of that record the payload is
  not in the set, and once the cooldown has passed the policy accepts it again. While the API
  is the collection (for any state \<open>t\<close> of the scanner then), the deletion is a
  request, followed when it succeeds by the request of the reload; once this reload has
  settled, the payload is in the set exactly when a record of the reply carries it, and when
  none does the policy accepts the payload again once the cooldown has passed.
\<close>

theorem accept_delete_roundtrip:
  assumes "decide qrData now (lastScannedCode s) (lastScanTime s) (scannedQRCodes s) (scanCooldown s)
           = ACCEPT"
    and "validPayload qrData"
    and "\<forall>r\<in>set (localStorage s). raw_qr_data r \<noteq> qrData"
  shows "qrData \<in> scannedQRCodes (snd (handleQRDetected now fr qrData s))
       \<and> (useLocalStorage s \<and> writeSucceeds fr \<longrightarrow>
            (\<exists>r\<in>set (localStorage (snd (handleQRDetected now fr qrData s))).
               id' r = generatedId fr \<and> raw_qr_data r = qrData)
          \<and> qrData \<notin> scannedQRCodes
               (snd (deleteRecord (generatedId fr) True True (snd (handleQRDetected now fr qrData s))))
          \<and> (\<forall>later. \<not> later - now < scanCooldown s \<longrightarrow>
               decide qrData later
                 (lastScannedCode (snd (deleteRecord (generatedId fr) True True (snd (handleQRDetected now fr qrData s)))))
                 (lastScanTime (snd (deleteRecord (generatedId fr) True True (snd (handleQRDetected now fr qrData s)))))
                 (scannedQRCodes (snd (deleteRecord (generatedId fr) True True (snd (handleQRDetected now fr qrData s)))))
                 (scanCooldown (snd (deleteRecord (generatedId fr) True True (snd (handleQRDetected now fr qrData s)))))
               = ACCEPT))
       \<and> (\<not> useLocalStorage s \<longrightarrow>
            (\<exists>parsedData.
               fst (handleQRDetected now fr qrData s) =
                 [ShowScanSuccess,
                  Fetch (PostRecord (newAttendance (name parsedData) (country parsedData) qrData fr)),
                  DisplayScanResult parsedData, ResumeScanningAfter 1000]))
       \<and> (\<not> useLocalStorage t \<longrightarrow>
            deleteRecord recordId True written t = ([Fetch (DeleteById recordId)], t)
          \<and> deleteRecord_settled recordId written (Succeeded deleted) t
              = ([Fetch (GetRecords 100)], t))
       \<and> (qrData \<in> scannedQRCodes (loadAttendanceRecords_settled (Succeeded records) t)
            \<longleftrightarrow> (\<exists>r\<in>set records. raw_qr_data r = qrData))
       \<and> ((\<forall>r\<in>set records. raw_qr_data r \<noteq> qrData) \<longrightarrow>
            (\<forall>later. \<not> (lastScannedCode t = Some qrData \<and> later - lastScanTime t < scanCooldown t) \<longrightarrow>
               decide qrData later
                 (lastScannedCode (loadAttendanceRecords_settled (Succeeded records) t))
                 (lastScanTime (loadAttendanceRecords_settled (Succeeded records) t))
                 (scannedQRCodes (loadAttendanceRecords_settled (Succeeded records) t))
                 (scanCooldown (loadAttendanceRecords_settled (Succeeded records) t))
               = ACCEPT))"
proof -
  let ?s1 = "snd (handleQRDetected now fr qrData s)"
  let ?s2 = "snd (deleteRecord (generatedId fr) True True ?s1)"
  let ?t1 = "loadAttendanceRecords_settled (Succeeded records) t"
  have ne: "qrData \<noteq> []" by (rule validPayload_nonempty[OF assms(2)])
  from handle_accept_valid[OF assms(1,2), of fr] obtain parsedData where
    hq: "handleQRDetected now fr qrData s =
               ([ShowScanSuccess]
                @ fst (saveAttendance (name parsedData) (country parsedData) qrData fr
                  (s\<lparr>scanning := False, lastScannedCode := Some qrData, lastScanTime := now,
                     scannedQRCodes := insert qrData (scannedQRCodes s)\<rparr>))
                @ [DisplayScanResult parsedData, ResumeScanningAfter 1000],
                snd (saveAttendance (name parsedData) (country parsedData) qrData fr
                  (s\<lparr>scanning := False, lastScannedCode := Some qrData, lastScanTime := now,
                     scannedQRCodes := insert qrData (scannedQRCodes s)\<rparr>)))"
    by blast
  have 1: "qrData \<in> scannedQRCodes ?s1"
    by (simp only: hq snd_conv) (rule save_member[OF ne], simp)
  have 2: "(\<exists>r\<in>set (localStorage ?s1). id' r = generatedId fr \<and> raw_qr_data r = qrData)
          \<and> qrData \<notin> scannedQRCodes ?s2
          \<and> (\<forall>later. \<not> later - now < scanCooldown s \<longrightarrow>
               decide qrData later (lastScannedCode ?s2) (lastScanTime ?s2) (scannedQRCodes ?s2)
                 (scanCooldown ?s2) = ACCEPT)"
    if loc: "useLocalStorage s" "writeSucceeds fr"
  proof -
    from handle_local_written[OF assms(1,2) loc] obtain pd where
      h: "handleQRDetected now fr qrData s =
               ([ShowScanSuccess, DisplayScanResult pd, ResumeScanningAfter 1000],
                loadFromLocalStorage
                  (saveToLocalStorage (newAttendance (name pd) (country pd) qrData fr)
                    (s\<lparr>scanning := False, lastScannedCode := Some qrData, lastScanTime := now,
                       scannedQRCodes := insert qrData (scannedQRCodes s)\<rparr>)))"
      by blast
    have s1: "?s1 = loadFromLocalStorage
                  (saveToLocalStorage (newAttendance (name pd) (country pd) qrData fr)
                    (s\<lparr>scanning := False, lastScannedCode := Some qrData, lastScanTime := now,
                       scannedQRCodes := insert qrData (scannedQRCodes s)\<rparr>))"
      by (simp only: h snd_conv)
    have st: "localStorage ?s1 = localStorage s @ [newAttendance (name pd) (country pd) qrData fr]"
      unfolding s1 by (simp add: saved_storage)
    have u: "useLocalStorage ?s1" unfolding s1 using loc(1) by (simp add: saved_other)
    have o: "lastScannedCode ?s1 = Some qrData" "lastScanTime ?s1 = now"
      "scanCooldown ?s1 = scanCooldown s"
      unfolding s1 by (simp_all add: saved_other)
    have a: "\<exists>r\<in>set (localStorage ?s1). id' r = generatedId fr \<and> raw_qr_data r = qrData"
      unfolding st by (simp add: newAttendance_def)
    have b: "qrData \<notin> scannedQRCodes ?s2"
      unfolding delete_local[OF u] deleteLocally_facts(3)[OF u] st
      using assms(3) by (auto simp: seenSetOf_def newAttendance_def)
    have o2: "lastScannedCode ?s2 = Some qrData" "lastScanTime ?s2 = now"
      "scanCooldown ?s2 = scanCooldown s"
      unfolding delete_local[OF u] deleteLocally_facts[OF u] by (rule o)+
    have c: "\<forall>later. \<not> later - now < scanCooldown s \<longrightarrow>
               decide qrData later (lastScannedCode ?s2) (lastScanTime ?s2) (scannedQRCodes ?s2)
                 (scanCooldown ?s2) = ACCEPT"
      using b by (simp add: decide_cases o2)
    from a b c show ?thesis by (intro conjI)
  qed
  have 3: "\<exists>parsedData.
               fst (handleQRDetected now fr qrData s) =
                 [ShowScanSuccess,
                  Fetch (PostRecord (newAttendance (name parsedData) (country parsedData) qrData fr)),
                  DisplayScanResult parsedData, ResumeScanningAfter 1000]"
    if "\<not> useLocalStorage s"
    using handle_remote[OF assms(1,2) that, of fr] by auto
  have 4: "\<not> useLocalStorage t \<longrightarrow>
            deleteRecord recordId True written t = ([Fetch (DeleteById recordId)], t)
          \<and> deleteRecord_settled recordId written (Succeeded deleted) t
              = ([Fetch (GetRecords 100)], t)"
    by (simp add: delete_remote delete_settled load_remote)
  have 5: "qrData \<in> scannedQRCodes ?t1 \<longleftrightarrow> (\<exists>r\<in>set records. raw_qr_data r = qrData)"
    using ne by (auto simp: settled_codes seenSetOf_def)
  have 6: "(\<forall>r\<in>set records. raw_qr_data r \<noteq> qrData) \<longrightarrow>
            (\<forall>later. \<not> (lastScannedCode t = Some qrData \<and> later - lastScanTime t < scanCooldown t) \<longrightarrow>
               decide qrData later (lastScannedCode ?t1) (lastScanTime ?t1) (scannedQRCodes ?t1)
                 (scanCooldown ?t1) = ACCEPT)"
    using 5 by (auto simp: decide_cases settled_other)
  have two: "useLocalStorage s \<and> writeSucceeds fr \<longrightarrow>
            (\<exists>r\<in>set (localStorage ?s1). id' r = generatedId fr \<and> raw_qr_data r = qrData)
          \<and> qrData \<notin> scannedQRCodes ?s2
          \<and> (\<forall>later. \<not> later - now < scanCooldown s \<longrightarrow>
               decide qrData later (lastScannedCode ?s2) (lastScanTime ?s2) (scannedQRCodes ?s2)
                 (scanCooldown ?s2) = ACCEPT)"
    using 2 by blast
  have three: "\<not> useLocalStorage s \<longrightarrow>
            (\<exists>parsedData.
               fst (handleQRDetected now fr qrData s) =
                 [ShowScanSuccess,
                  Fetch (PostRecord (newAttendance (name parsedData) (country parsedData) qrData fr)),
                  DisplayScanResult parsedData, ResumeScanningAfter 1000])"
    using 3 by blast
  show ?thesis by (rule conjI[OF 1 conjI[OF two conjI[OF three conjI[OF 4 conjI[OF 5 6]]]]])
qed



theorem accept_delete_roundtrip_witness:
  "js ''DOE, John, USA'' \<in> scannedQRCodes scannedOnce
   \<and> js ''DOE, John, USA''
       \<notin> scannedQRCodes (snd (deleteRecord (js ''record_A'') True True scannedOnce))
   \<and> decide (js ''DOE, John, USA'') 12000
        (lastScannedCode (snd (deleteRecord (js ''record_A'') True True scannedOnce)))
        (lastScanTime (snd (deleteRecord (js ''record_A'') True True scannedOnce)))
        (scannedQRCodes (snd (deleteRecord (js ''record_A'') True True scannedOnce)))
        (scanCooldown (snd (deleteRecord (js ''record_A'') True True scannedOnce))) = ACCEPT
   \<and> deleteRecord (js ''record_A'') True True (constructor [])
       = ([Fetch (DeleteById (js ''record_A''))], constructor [])
   \<and> js ''DOE, John, USA''
       \<notin> scannedQRCodes (loadAttendanceRecords_settled (Succeeded [remoteRecord]) (constructor []))
   \<and> decide (js ''DOE, John, USA'') 12000
        (lastScannedCode (loadAttendanceRecords_settled (Succeeded [remoteRecord]) (constructor [])))
        (lastScanTime (loadAttendanceRecords_settled (Succeeded [remoteRecord]) (constructor [])))
        (scannedQRCodes (loadAttendanceRecords_settled (Succeeded [remoteRecord]) (constructor [])))
        (scanCooldown (loadAttendanceRecords_settled (Succeeded [remoteRecord]) (constructor [])))
       = ACCEPT"
proof -
  have d: "decide (js ''DOE, John, USA'') 10000 (lastScannedCode offline)
             (lastScanTime offline) (scannedQRCodes offline) (scanCooldown offline) = ACCEPT"
    "validPayload (js ''DOE, John, USA'')"
    by code_simp+
  have e: "\<forall>r\<in>set (localStorage offline). raw_qr_data r \<noteq> js ''DOE, John, USA''"
    by (simp add: offline_def settled_other constructor_facts)
  have g: "generatedId freshA = js ''record_A''" "\<not> (12000::int) - 10000 < scanCooldown offline"
    "useLocalStorage offline" "writeSucceeds freshA"
    by (simp_all add: freshA_def offline_def settled_other settled_flag constructor_facts)
  have h: "\<not> useLocalStorage (constructor [])"
    "\<forall>r\<in>set [remoteRecord]. raw_qr_data r \<noteq> js ''DOE, John, USA''"
    "\<not> (lastScannedCode (constructor []) = Some (js ''DOE, John, USA'')
         \<and> (12000::int) - lastScanTime (constructor []) < scanCooldown (constructor []))"
    by (simp_all add: constructor_facts remoteRecord_def newAttendance_def js_def)
  note t = accept_delete_roundtrip[OF d e, where fr = freshA and t = "constructor []"
      and records = "[remoteRecord]" and recordId = "js ''record_A''" and written = True,
      folded scannedOnce_def, unfolded g(1)]
  from t have 1: "js ''DOE, John, USA'' \<in> scannedQRCodes scannedOnce" by blast
  from t g(3,4) have 2: "js ''DOE, John, USA''
       \<notin> scannedQRCodes (snd (deleteRecord (js ''record_A'') True True scannedOnce))"
    by blast
  from t g(2,3,4) have 3: "decide (js ''DOE, John, USA'') 12000
        (lastScannedCode (snd (deleteRecord (js ''record_A'') True True scannedOnce)))
        (lastScanTime (snd (deleteRecord (js ''record_A'') True True scannedOnce)))
        (scannedQRCodes (snd (deleteRecord (js ''record_A'') True True scannedOnce)))
        (scanCooldown (snd (deleteRecord (js ''record_A'') True True scannedOnce))) = ACCEPT"
    by blast
  from t h(1) have 4: "deleteRecord (js ''record_A'') True True (constructor [])
       = ([Fetch (DeleteById (js ''record_A''))], constructor [])"
    by blast
  from t h(2) have 5: "js ''DOE, John, USA''
       \<notin> scannedQRCodes (loadAttendanceRecords_settled (Succeeded [remoteRecord]) (constructor []))"
    by blast
  from t h(2,3) have 6: "decide (js ''DOE, John, USA'') 12000
        (lastScannedCode (loadAttendanceRecords_settled (Succeeded [remoteRecord]) (constructor [])))
        (lastScanTime (loadAttendanceRecords_settled (Succeeded [remoteRecord]) (constructor [])))
        (scannedQRCodes (loadAttendanceRecords_settled (Succeeded [remoteRecord]) (constructor [])))
        (scanCooldown (loadAttendanceRecords_settled (Succeeded [remoteRecord]) (constructor [])))
       = ACCEPT"
    by blast
  from 1 2 3 4 5 6 show ?thesis by (intro conjI)
qed

text \<open>A code scanned, the blocked set cleared, the code scanned again and the second record
  deleted: the first record puts the payload back into the set, and the policy rejects it.\<close>

theorem rescan_after_clear_counterexample:
  "decide (js ''DOE, John, USA'') 20000 (lastScannedCode (clearScannedQRCodes scannedOnce))
     (lastScanTime (clearScannedQRCodes scannedOnce)) (scannedQRCodes (clearScannedQRCodes scannedOnce))
     (scanCooldown (clearScannedQRCodes scannedOnce)) = ACCEPT
   \<and> validPayload (js ''DOE, John, USA'')
   \<and> map id' (localStorage rescanned) = [js ''record_A'', js ''record_B'']
   \<and> map id' (localStorage (snd (deleteRecord (js ''record_B'') True True rescanned)))
       = [js ''record_A'']
   \<and> js ''DOE, John, USA''
       \<in> scannedQRCodes (snd (deleteRecord (js ''record_B'') True True rescanned))
   \<and> decide (js ''DOE, John, USA'') 30000
        (lastScannedCode (snd (deleteRecord (js ''record_B'') True True rescanned)))
        (lastScanTime (snd (deleteRecord (js ''record_B'') True True rescanned)))
        (scannedQRCodes (snd (deleteRecord (js ''record_B'') True True rescanned)))
        (scanCooldown (snd (deleteRecord (js ''record_B'') True True rescanned))) = REJECT_DUPLICATE"
  by code_simp

section \<open>The CSV export\<close>

lemma mset_insert_by: "mset (insert_by cmp x xs) = add_mset x (mset xs)"
  by (induction xs) auto

lemma mset_sort_by: "mset (sort_by cmp xs) = mset xs"
  by (induction xs) (auto simp: sort_by_def mset_insert_by)

lemma set_insert_by: "set (insert_by cmp x xs) = insert x (set xs)"
  by (induction xs) auto

lemma sorted_insert_by:
  "sorted_wrt (\<lambda>a b. scan_timestamp b \<le> scan_timestamp a) xs \<Longrightarrow>
   sorted_wrt (\<lambda>a b. scan_timestamp b \<le> scan_timestamp a)
     (insert_by (\<lambda>a b. scan_timestamp b - scan_timestamp a) x xs)"
  by (induction xs) (auto simp: set_insert_by)

lemma sorted_newestFirst:
  "sorted_wrt (\<lambda>a b. scan_timestamp b \<le> scan_timestamp a) (newestFirst records)"
  unfolding newestFirst_def sort_by_def
  by (induction records) (auto intro: sorted_insert_by)

lemma filter_insert_by:
  "sorted_wrt (\<lambda>a b. scan_timestamp b \<le> scan_timestamp a) xs \<Longrightarrow>
   filter (\<lambda>r. scan_timestamp r = t) (insert_by (\<lambda>a b. scan_timestamp b - scan_timestamp a) x xs)
   = filter (\<lambda>r. scan_timestamp r = t) (x # xs)"
proof (induction xs)
  case Nil
  then show ?case by simp
next
  case (Cons y ys)
  then show ?case by (auto simp: filter_empty_conv set_insert_by)
qed

lemma stable_newestFirst:
  "filter (\<lambda>r. scan_timestamp r = t) (newestFirst records)
   = filter (\<lambda>r. scan_timestamp r = t) records"
proof (induction records)
  case Nil
  then show ?case by (simp add: newestFirst_def sort_by_def)
next
  case (Cons x xs)
  have "newestFirst (x # xs) = insert_by (\<lambda>a b. scan_timestamp b - scan_timestamp a) x (newestFirst xs)"
    by (simp add: newestFirst_def sort_by_def)
  with Cons filter_insert_by[OF sorted_newestFirst, of t x xs] show ?case by simp
qed

lemma digitChar_plain: "d < 10 \<Longrightarrow> digitChar d \<noteq> ch CHR 0x22 \<and> digitChar d \<noteq> ch CHR '',''"
proof -
  assume "d < 10"
  then have "d < length (js ''0123456789'')" by (simp add: js_def)
  then have "digitChar d \<in> set (js ''0123456789'')"
    unfolding digitChar_def by (rule nth_mem)
  moreover have "ch CHR 0x22 \<notin> set (js ''0123456789'')" "ch CHR '','' \<notin> set (js ''0123456789'')"
    by (simp_all add: js_def ch_def)
  ultimately show ?thesis by metis
qed

lemma toString_plain: "c \<in> set (toString n) \<Longrightarrow> c \<noteq> ch CHR 0x22 \<and> c \<noteq> ch CHR '',''"
proof (induction n rule: toString.induct)
  case (1 n)
  show ?case
  proof (cases "n < 10")
    case True
    then have "toString n = [digitChar n]" by (subst toString.simps) simp
    with "1.prems" digitChar_plain[OF True] show ?thesis by simp
  next
    case False
    then have "toString n = toString (n div 10) @ [digitChar (n mod 10)]"
      by (subst toString.simps) simp
    with "1.prems" have "c \<in> set (toString (n div 10)) \<or> c = digitChar (n mod 10)"
      by auto
    then show ?thesis
    proof
      assume "c \<in> set (toString (n div 10))"
      then show ?thesis by (rule "1.IH"[OF False])
    next
      assume c: "c = digitChar (n mod 10)"
      have "n mod 10 < 10" by simp
      from digitChar_plain[OF this] show ?thesis unfolding c .
    qed
  qed
qed

lemma unquote_doubleQuotes: "unquote (doubleQuotes s) = Some s"
proof (induction s)
  case Nil
  then show ?case by (simp add: doubleQuotes_def)
next
  case (Cons c s)
  have d: "doubleQuotes (c # s) = (if c = ch CHR 0x22 then [c, c] else [c]) @ doubleQuotes s"
    by (simp add: doubleQuotes_def)
  show ?case
  proof (cases "c = ch CHR 0x22")
    case True
    with d Cons show ?thesis by simp
  next
    case False
    with d Cons show ?thesis by (cases "doubleQuotes s") auto
  qed
qed

text \<open>
  Claim C4, as the code has it. The records exported are those of the API's reply to a request
  for at most 1000 records while \<open>useLocalStorage\<close> is false, and those of local
  storage when it is true or the API is unavailable. With no record the method only alerts and
  nothing is exported, for any state. With at least one record the exported text is the header
  row \<open>No.,Name,Country,Scan Date,Scan Time,Full Timestamp\<close> followed by one row per
  record, the rows separated by line feeds and taken from all these records sorted newest scan
  first (a stable sort: records of equal time keep their order). In each row the fields are
  joined by commas; the first is the bare row number, which holds no quote; the other five are
  wrapped in double quotes, and in name and country every double quote is doubled, so that
  reading the field back gives the value. The date, time and timestamp are wrapped as the
  locale formats them.
\<close>

theorem csv_export:
  "exportRecords fmt [] s = ([Alert ''No attendance records to export.''], s)
   \<and> (records \<noteq> [] \<longrightarrow>
        exportRecords fmt records s =
          ([Download
              (join (js ''No.,Name,Country,Scan Date,Scan Time,Full Timestamp''
                     # map (\<lambda>(index, record). join (csvRow fmt index record) (js '',''))
                           (zip [0 ..< length records] (newestFirst records)))
                    [0x0A])], s))
   \<and> mset (newestFirst records) = mset records
   \<and> sorted_wrt (\<lambda>a b. scan_timestamp b \<le> scan_timestamp a) (newestFirst records)
   \<and> (\<forall>t. filter (\<lambda>r. scan_timestamp r = t) (newestFirst records)
          = filter (\<lambda>r. scan_timestamp r = t) records)
   \<and> (\<forall>index record. \<exists>n c.
         csvRow fmt index record =
           [toString (index + 1), quoted n, quoted c,
            quoted (toLocaleDateString fmt (scan_timestamp record)),
            quoted (toLocaleTimeString fmt (scan_timestamp record)),
            quoted (toLocaleString fmt (scan_timestamp record))]
         \<and> unquote n = Some (name record) \<and> unquote c = Some (country record)
         \<and> ch CHR 0x22 \<notin> set (toString (index + 1)))
   \<and> (useLocalStorage s \<longrightarrow>
        exportToCSV fmt s = exportRecords fmt (localStorage s) s
        \<and> exportToCSV_settled fmt (Succeeded records) s = exportRecords fmt (localStorage s) s)
   \<and> (\<not> useLocalStorage s \<longrightarrow>
        exportToCSV fmt s = ([Fetch (GetRecords 1000)], s)
        \<and> exportToCSV_settled fmt (Succeeded records) s = exportRecords fmt records s)
   \<and> exportToCSV_settled fmt Unavailable s
       = exportRecords fmt (localStorage s) (s\<lparr>useLocalStorage := True\<rparr>)"
proof -
  have h: "join csvHeaders (js '','') = js ''No.,Name,Country,Scan Date,Scan Time,Full Timestamp''"
    by (simp add: csvHeaders_def js_def)
  have l: "length (newestFirst records) = length records"
    using mset_sort_by[of _ records] unfolding newestFirst_def by (metis size_mset)
  have 0: "exportRecords fmt [] s = ([Alert ''No attendance records to export.''], s)"
    by (simp add: exportRecords_def)
  have 1: "records \<noteq> [] \<longrightarrow>
        exportRecords fmt records s =
          ([Download
              (join (js ''No.,Name,Country,Scan Date,Scan Time,Full Timestamp''
                     # map (\<lambda>(index, record). join (csvRow fmt index record) (js '',''))
                           (zip [0 ..< length records] (newestFirst records)))
                    [0x0A])], s)"
    by (simp add: exportRecords_def csvRows_def h l)
  have 2: "mset (newestFirst records) = mset records"
    by (simp add: newestFirst_def mset_sort_by)
  have 4: "\<forall>t. filter (\<lambda>r. scan_timestamp r = t) (newestFirst records)
              = filter (\<lambda>r. scan_timestamp r = t) records"
    by (simp add: stable_newestFirst)
  have 5: "\<forall>index record. \<exists>n c.
             csvRow fmt index record =
               [toString (index + 1), quoted n, quoted c,
                quoted (toLocaleDateString fmt (scan_timestamp record)),
                quoted (toLocaleTimeString fmt (scan_timestamp record)),
                quoted (toLocaleString fmt (scan_timestamp record))]
             \<and> unquote n = Some (name record) \<and> unquote c = Some (country record)
             \<and> ch CHR 0x22 \<notin> set (toString (index + 1))"
  proof (intro allI)
    fix index r
    have "ch CHR 0x22 \<notin> set (toString (index + 1))" using toString_plain by blast
    then show "\<exists>n c.
             csvRow fmt index r =
               [toString (index + 1), quoted n, quoted c,
                quoted (toLocaleDateString fmt (scan_timestamp r)),
                quoted (toLocaleTimeString fmt (scan_timestamp r)),
                quoted (toLocaleString fmt (scan_timestamp r))]
             \<and> unquote n = Some (name r) \<and> unquote c = Some (country r)
             \<and> ch CHR 0x22 \<notin> set (toString (index + 1))"
      by (intro exI[of _ "doubleQuotes (name r)"] exI[of _ "doubleQuotes (country r)"])
         (simp add: csvRow_def unquote_doubleQuotes)
  qed
  have 6: "useLocalStorage s \<longrightarrow>
        exportToCSV fmt s = exportRecords fmt (localStorage s) s
        \<and> exportToCSV_settled fmt (Succeeded records) s = exportRecords fmt (localStorage s) s"
    by (simp add: exportToCSV_def exportToCSV_settled_def getLocalStorageRecords_def)
  have 7: "\<not> useLocalStorage s \<longrightarrow>
        exportToCSV fmt s = ([Fetch (GetRecords 1000)], s)
        \<and> exportToCSV_settled fmt (Succeeded records) s = exportRecords fmt records s"
    by (simp add: exportToCSV_def exportToCSV_settled_def)
  have 8: "exportToCSV_settled fmt Unavailable s
       = exportRecords fmt (localStorage s) (s\<lparr>useLocalStorage := True\<rparr>)"
    by (simp add: exportToCSV_settled_def getLocalStorageRecords_def)
  show ?thesis
    by (rule conjI[OF 0 conjI[OF 1 conjI[OF 2 conjI[OF sorted_newestFirst conjI[OF 4 conjI[OF 5
          conjI[OF 6 conjI[OF 7 8]]]]]]]])
qed

theorem csv_export_witness:
  \<open>exportToCSV exampleFormat scannedTwice =
     ([Download (js ''No.,Name,Country,Scan Date,Scan Time,Full Timestamp\<newline>1,"Jane ""JR"" Roe","Canada","d","t","f"\<newline>2,"DOE, John","USA","d","t","f"'')],
      scannedTwice)
   \<and> map scan_timestamp (newestFirst (localStorage scannedTwice)) = [20000, 10000]
   \<and> exportToCSV exampleFormat (constructor []) = ([Fetch (GetRecords 1000)], constructor [])
   \<and> exportToCSV_settled exampleFormat (Succeeded [remoteRecord]) (constructor []) =
       ([Download (js ''No.,Name,Country,Scan Date,Scan Time,Full Timestamp\<newline>1,"Jane Roe","Canada","d","t","f"'')],
        constructor [])\<close>
proof -
  have n: "localStorage scannedTwice \<noteq> []" "useLocalStorage scannedTwice"
    "[remoteRecord] \<noteq> []" "\<not> useLocalStorage (constructor [])"
    by code_simp+
  have e: \<open>join (js ''No.,Name,Country,Scan Date,Scan Time,Full Timestamp''
                       # map (\<lambda>(index, record). join (csvRow exampleFormat index record) (js '',''))
                             (zip [0 ..< length (localStorage scannedTwice)] (newestFirst (localStorage scannedTwice))))
                      [0x0A]
     = js ''No.,Name,Country,Scan Date,Scan Time,Full Timestamp\<newline>1,"Jane ""JR"" Roe","Canada","d","t","f"\<newline>2,"DOE, John","USA","d","t","f"''\<close>
    \<open>map scan_timestamp (newestFirst (localStorage scannedTwice)) = [20000, 10000]\<close>
    \<open>join (js ''No.,Name,Country,Scan Date,Scan Time,Full Timestamp''
                       # map (\<lambda>(index, record). join (csvRow exampleFormat index record) (js '',''))
                             (zip [0 ..< length [remoteRecord]] (newestFirst [remoteRecord])))
                      [0x0A]
     = js ''No.,Name,Country,Scan Date,Scan Time,Full Timestamp\<newline>1,"Jane Roe","Canada","d","t","f"''\<close>
    by code_simp+
  note t = csv_export[where fmt = exampleFormat and s = scannedTwice
      and records = "localStorage scannedTwice"]
  note u = csv_export[where fmt = exampleFormat and s = "constructor []"
      and records = "[remoteRecord]"]
  from t n(1,2) have "exportToCSV exampleFormat scannedTwice =
          ([Download
              (join (js ''No.,Name,Country,Scan Date,Scan Time,Full Timestamp''
                     # map (\<lambda>(index, record). join (csvRow exampleFormat index record) (js '',''))
                           (zip [0 ..< length (localStorage scannedTwice)]
                                (newestFirst (localStorage scannedTwice))))
                    [0x0A])], scannedTwice)"
    by metis
  then have 1: \<open>exportToCSV exampleFormat scannedTwice =
     ([Download (js ''No.,Name,Country,Scan Date,Scan Time,Full Timestamp\<newline>1,"Jane ""JR"" Roe","Canada","d","t","f"\<newline>2,"DOE, John","USA","d","t","f"'')],
      scannedTwice)\<close>
    by (simp only: e(1))
  from u n(4) have 3: "exportToCSV exampleFormat (constructor []) = ([Fetch (GetRecords 1000)], constructor [])"
    by blast
  from u n(3,4) have "exportToCSV_settled exampleFormat (Succeeded [remoteRecord]) (constructor []) =
          ([Download
              (join (js ''No.,Name,Country,Scan Date,Scan Time,Full Timestamp''
                     # map (\<lambda>(index, record). join (csvRow exampleFormat index record) (js '',''))
                           (zip [0 ..< length [remoteRecord]] (newestFirst [remoteRecord])))
                    [0x0A])], constructor [])"
    by metis
  then have 4: \<open>exportToCSV_settled exampleFormat (Succeeded [remoteRecord]) (constructor []) =
       ([Download (js ''No.,Name,Country,Scan Date,Scan Time,Full Timestamp\<newline>1,"Jane Roe","Canada","d","t","f"'')],
        constructor [])\<close>
    by (simp only: e(3))
  from 1 e(2) 3 4 show ?thesis by (intro conjI)
qed

text \<open>The first field of a data row is the row number without quotes, and with no record
  nothing is exported, the header row neither.\<close>

theorem bare_row_number_counterexample:
  \<open>exportToCSV exampleFormat scannedOnce =
     ([Download (js ''No.,Name,Country,Scan Date,Scan Time,Full Timestamp\<newline>1,"DOE, John","USA","d","t","f"'')],
      scannedOnce)
   \<and> csvRow exampleFormat 0 (hd (newestFirst (localStorage scannedOnce)))
       = [js ''1'', js ''"DOE, John"'', js ''"USA"'', js ''"d"'', js ''"t"'', js ''"f"'']
   \<and> hd (hd (csvRow exampleFormat 0 (hd (newestFirst (localStorage scannedOnce))))) \<noteq> ch CHR 0x22
   \<and> exportToCSV exampleFormat offline = ([Alert ''No attendance records to export.''], offline)
   \<and> exportToCSV_settled exampleFormat (Succeeded []) (constructor [])
       = ([Alert ''No attendance records to export.''], constructor [])\<close>
  by code_simp

end
